theory Spec2Isabelle
  imports Main "HOL-Library.Multiset"
begin

section \<open>Errors and request values\<close>

text \<open>
  The services raise \<open>NotAllowed\<close> themselves; the other errors are the ones the
  persistence calls and the dictionary reads of the source can raise.
\<close>

datatype error =
    NotAllowed string
  | DoesNotExist
  | MultipleObjectsReturned
  | KeyError string
  | IntegrityError
  | JSONDecodeError

text \<open>A JSON scalar as the request carries it, with Python's truth value.\<close>

datatype pyval = PyNone | PyBool bool | PyInt int | PyStr string

fun truthy :: "pyval \<Rightarrow> bool" where
  "truthy PyNone = False"
| "truthy (PyBool b) = b"
| "truthy (PyInt i) = (i \<noteq> 0)"
| "truthy (PyStr s) = (s \<noteq> [])"

text \<open>\<open>sep.join(xs)\<close> of Python.\<close>

fun join :: "string \<Rightarrow> string list \<Rightarrow> string" where
  "join sep [] = []"
| "join sep [x] = x"
| "join sep (x # y # ys) = x @ sep @ join sep (y # ys)"

section \<open>Rows and the database\<close>

record base_endpoint =
  be_id :: int
  be_endpoint :: string

record relative_endpoint =
  re_id :: int
  re_base_endpoint_id :: int
  re_endpoint :: string
  re_method :: string
  re_regex_endpoint :: string
  re_meta_data :: string

record field_row =
  f_id :: int
  f_relative_endpoint_id :: int
  f_key :: string
  f_type :: string
  f_value :: string
  f_is_array :: bool

record schema_row =
  s_id :: int
  s_name :: string

record schema_data_row =
  sd_id :: int
  sd_schema_id :: int
  sd_key :: string
  sd_type :: string
  sd_value :: int

text \<open>
  The five tables, each a list of rows in insertion order, and for each table the
  largest id it has handed out: a created row gets the next id, and an id is never
  used again after its row is deleted.
\<close>

record db =
  BaseEndpoint_objects :: "base_endpoint list"
  be_seq :: int
  RelativeEndpoint_objects :: "relative_endpoint list"
  re_seq :: int
  Field_objects :: "field_row list"
  f_seq :: int
  Schema_objects :: "schema_row list"
  s_seq :: int
  SchemaData_objects :: "schema_data_row list"
  sd_seq :: int

definition empty_db :: db where
  "empty_db =
     \<lparr>BaseEndpoint_objects = [], be_seq = 0, RelativeEndpoint_objects = [], re_seq = 0,
      Field_objects = [], f_seq = 0, Schema_objects = [], s_seq = 0,
      SchemaData_objects = [], sd_seq = 0\<rparr>"

text \<open>
  What the services import from modules that are not part of the sources at hand
  (\<open>models\<close>, \<open>utils\<close>) and from \<open>json\<close>: the constants of \<open>PrimitiveDataType\<close>,
  \<open>RelativeEndpoint\<close> and \<open>Field\<close>, the path formatter, the \<open>url_params\<close> property,
  the default of the \<open>meta_data\<close> column, and the JSON parser and serialiser with
  \<open>'j\<close> the parsed values.
\<close>

record 'j env =
  CHOICES :: "string list"
  METHODS :: "(string \<times> string) list"
  SCHEMA :: string
  VALUE :: string
  URL_PARAM :: string
  QUERY_PARAM :: string
  format_and_regex_endpoint :: "string \<Rightarrow> error + string \<times> string"
  url_params :: "string \<Rightarrow> string list"
  default_meta_data :: string
  json_loads :: "string \<Rightarrow> 'j option"
  json_dumps :: "'j \<Rightarrow> string"

section \<open>Persistence calls\<close>

text \<open>\<open>objects.get(...)\<close>: the one row that matches, or an error.\<close>

definition objects_get :: "('a \<Rightarrow> bool) \<Rightarrow> 'a list \<Rightarrow> error + 'a" where
  "objects_get p rows =
     (case filter p rows of
        [] \<Rightarrow> Inl DoesNotExist
      | [r] \<Rightarrow> Inr r
      | _ \<Rightarrow> Inl MultipleObjectsReturned)"

text \<open>\<open>list.index(x)\<close> for an \<open>x\<close> that is in the list.\<close>

fun index_of :: "'a \<Rightarrow> 'a list \<Rightarrow> int" where
  "index_of x [] = 0"
| "index_of x (y # ys) = (if x = y then 0 else 1 + index_of x ys)"

text \<open>Objects built in memory and not saved yet have no id.\<close>

record field_obj =
  fo_relative_endpoint_id :: int
  fo_key :: string
  fo_type :: string
  fo_value :: string
  fo_is_array :: bool

record schema_data_obj =
  sdo_schema_id :: int
  sdo_key :: string
  sdo_type :: string
  sdo_value :: int

fun save_fields :: "int \<Rightarrow> field_obj list \<Rightarrow> field_row list" where
  "save_fields n [] = []"
| "save_fields n (x # xs) =
     \<lparr>f_id = n + 1, f_relative_endpoint_id = fo_relative_endpoint_id x, f_key = fo_key x,
      f_type = fo_type x, f_value = fo_value x, f_is_array = fo_is_array x\<rparr>
     # save_fields (n + 1) xs"

fun save_schema_datas :: "int \<Rightarrow> schema_data_obj list \<Rightarrow> schema_data_row list" where
  "save_schema_datas n [] = []"
| "save_schema_datas n (x # xs) =
     \<lparr>sd_id = n + 1, sd_schema_id = sdo_schema_id x, sd_key = sdo_key x,
      sd_type = sdo_type x, sd_value = sdo_value x\<rparr>
     # save_schema_datas (n + 1) xs"

text \<open>\<open>bulk_create\<close> of objects without ids: they are appended with fresh ids.\<close>

definition Field_bulk_create :: "field_obj list \<Rightarrow> db \<Rightarrow> db" where
  "Field_bulk_create objs db =
     db\<lparr>Field_objects := Field_objects db @ save_fields (f_seq db) objs,
        f_seq := f_seq db + int (length objs)\<rparr>"

definition SchemaData_bulk_create :: "schema_data_obj list \<Rightarrow> db \<Rightarrow> db" where
  "SchemaData_bulk_create objs db =
     db\<lparr>SchemaData_objects := SchemaData_objects db @ save_schema_datas (sd_seq db) objs,
        sd_seq := sd_seq db + int (length objs)\<rparr>"

text \<open>
  \<open>bulk_create\<close> of objects that carry their ids: one insert, refused as a whole when
  a primary key would occur twice. The table's counter moves up to the largest id.
\<close>

definition pk_insert :: "('a \<Rightarrow> int) \<Rightarrow> 'a list \<Rightarrow> 'a list \<Rightarrow> error + 'a list" where
  "pk_insert pk new rows =
     (if distinct (map pk (rows @ new)) then Inr (rows @ new) else Inl IntegrityError)"

definition bump_seq :: "int \<Rightarrow> int list \<Rightarrow> int" where
  "bump_seq n ids = fold max ids n"

text \<open>\<open>instance.save()\<close> of a row read earlier: every column is written back.\<close>

definition RelativeEndpoint_save :: "relative_endpoint \<Rightarrow> db \<Rightarrow> db" where
  "RelativeEndpoint_save obj db =
     (if re_id obj \<in> set (map re_id (RelativeEndpoint_objects db))
      then db\<lparr>RelativeEndpoint_objects :=
                map (\<lambda>r. if re_id r = re_id obj then obj else r) (RelativeEndpoint_objects db)\<rparr>
      else db\<lparr>RelativeEndpoint_objects := RelativeEndpoint_objects db @ [obj]\<rparr>)"

section \<open>Request payloads\<close>

record endpoint_data =
  ed_id :: int
  ed_endpoint :: string
  ed_method :: string

record schema_field =
  sf_key :: string
  sf_type :: string
  sf_value :: string

record schema_data =
  sa_name :: string
  sa_fields :: "schema_field list"

text \<open>An incoming field entry: the keys \<open>id\<close> and \<open>isChanged\<close> may be absent.\<close>

record field_entry =
  fe_id :: "int option"
  fe_key :: string
  fe_type :: string
  fe_value :: string
  fe_is_array :: bool
  fe_isChanged :: "pyval option"

record schema_update_data =
  su_id :: int
  su_fields :: "field_entry list"
  su_meta_data :: string

section \<open>Detail views\<close>

text \<open>
  Modelled from the spec: the \<open>detail()\<close> projections belong to \<open>models\<close>, which is
  not among the sources. The snapshot holds all BaseEndpoints, RelativeEndpoints (with
  derived url_params and parsed meta_data), Fields, Schemas and SchemaData, each as a
  flat list; the keys are the ones \<open>data_import\<close> reads, deletes or passes on as columns.
\<close>

record field_detail =
  fd_id :: int
  fd_key :: string
  fd_type :: string
  fd_value :: string
  fd_is_array :: bool

record 'j relative_endpoint_detail =
  rd_id :: int
  rd_base_endpoint :: int
  rd_endpoint :: string
  rd_method :: string
  rd_regex_endpoint :: string
  rd_meta_data :: 'j
  rd_fields :: "field_detail list"
  rd_url_params :: "string list"

record schema_data_detail =
  sdd_id :: int
  sdd_schema :: int
  sdd_key :: string
  sdd_type :: string
  sdd_value :: int

record schema_detail =
  sc_id :: int
  sc_name :: string
  sc_schema :: "schema_data_detail list"

record 'j snapshot =
  snap_base_endpoints :: "base_endpoint list"
  snap_relative_endpoints :: "'j relative_endpoint_detail list"
  snap_schema :: "schema_detail list"
  snap_fields :: "field_detail list"
  snap_schema_data :: "schema_data_detail list"

text \<open>
  Modelled from the spec: \<open>Field.detail()\<close> is not among the sources. A field in the
  snapshot has the columns of its row apart from the owner, which \<open>data_import\<close> sets.
\<close>

definition Field_detail :: "field_row \<Rightarrow> field_detail" where
  "Field_detail f =
     \<lparr>fd_id = f_id f, fd_key = f_key f, fd_type = f_type f, fd_value = f_value f,
      fd_is_array = f_is_array f\<rparr>"

text \<open>
  Modelled from the spec: \<open>SchemaData.detail()\<close> is not among the sources. The owner is
  under the key \<open>schema\<close>, which \<open>data_import\<close> renames to \<open>schema_id\<close>.
\<close>

definition SchemaData_detail :: "schema_data_row \<Rightarrow> schema_data_detail" where
  "SchemaData_detail d =
     \<lparr>sdd_id = sd_id d, sdd_schema = sd_schema_id d, sdd_key = sd_key d,
      sdd_type = sd_type d, sdd_value = sd_value d\<rparr>"

text \<open>
  Modelled from the spec: \<open>Schema.detail()\<close> is not among the sources. The detail view is
  the name with the ordered field list, here under the key \<open>schema\<close> that \<open>data_import\<close>
  deletes; the list is flat (a nested schema is given by its id, not expanded).
\<close>

definition Schema_detail :: "db \<Rightarrow> schema_row \<Rightarrow> schema_detail" where
  "Schema_detail db s =
     \<lparr>sc_id = s_id s, sc_name = s_name s,
      sc_schema = map SchemaData_detail
        (filter (\<lambda>d. sd_schema_id d = s_id s) (SchemaData_objects db))\<rparr>"

text \<open>
  Modelled from the spec: \<open>RelativeEndpoint.detail()\<close> is not among the sources. An
  endpoint in the snapshot has its columns, the derived \<open>url_params\<close>, the parsed
  \<open>meta_data\<close> and its fields embedded; parsing a text that is not JSON raises.
\<close>

definition RelativeEndpoint_detail ::
  "'j env \<Rightarrow> db \<Rightarrow> relative_endpoint \<Rightarrow> error + 'j relative_endpoint_detail" where
  "RelativeEndpoint_detail env db r =
     (case json_loads env (re_meta_data r) of
        None \<Rightarrow> Inl JSONDecodeError
      | Some j \<Rightarrow>
          Inr \<lparr>rd_id = re_id r, rd_base_endpoint = re_base_endpoint_id r,
               rd_endpoint = re_endpoint r, rd_method = re_method r,
               rd_regex_endpoint = re_regex_endpoint r, rd_meta_data = j,
               rd_fields = map Field_detail
                 (filter (\<lambda>f. f_relative_endpoint_id f = re_id r) (Field_objects db)),
               rd_url_params = url_params env (re_endpoint r)\<rparr>)"

text \<open>The detail of a queryset: the details of its rows in order, or the first error.\<close>

fun details :: "('a \<Rightarrow> error + 'b) \<Rightarrow> 'a list \<Rightarrow> error + 'b list" where
  "details f [] = Inr []"
| "details f (x # xs) =
     (case f x of
        Inl e \<Rightarrow> Inl e
      | Inr y \<Rightarrow> (case details f xs of Inl e \<Rightarrow> Inl e | Inr ys \<Rightarrow> Inr (y # ys)))"

section \<open>The services\<close>

subsection \<open>base_endpoint_add\<close>

text \<open>\<open>objects.get_or_create(endpoint=...)\<close>: the row and whether it was created.\<close>

definition BaseEndpoint_get_or_create ::
  "string \<Rightarrow> db \<Rightarrow> db \<times> (error + base_endpoint \<times> bool)" where
  "BaseEndpoint_get_or_create e db =
     (case filter (\<lambda>r. be_endpoint r = e) (BaseEndpoint_objects db) of
        [] \<Rightarrow>
          (let r = \<lparr>be_id = be_seq db + 1, be_endpoint = e\<rparr>
           in (db\<lparr>BaseEndpoint_objects := BaseEndpoint_objects db @ [r],
                  be_seq := be_seq db + 1\<rparr>, Inr (r, True)))
      | [r] \<Rightarrow> (db, Inr (r, False))
      | _ \<Rightarrow> (db, Inl MultipleObjectsReturned))"

text \<open>The request is \<open>{endpoint}\<close>; one leading slash is cut off (\<open>[1:]\<close>).\<close>

definition base_endpoint_add :: "string \<Rightarrow> db \<Rightarrow> db \<times> (error + base_endpoint \<times> bool)" where
  "base_endpoint_add endpoint db =
     BaseEndpoint_get_or_create
       (case endpoint of
          [] \<Rightarrow> endpoint
        | c # cs \<Rightarrow> if c = CHR ''/'' then cs else endpoint)
       db"

subsection \<open>relative_endpoint_add\<close>

definition relative_endpoint_add ::
  "'j env \<Rightarrow> endpoint_data \<Rightarrow> db \<Rightarrow> db \<times> (error + relative_endpoint)" where
  "relative_endpoint_add env data db =
     (let methods = map fst (METHODS env) in
      if ed_method data \<notin> set methods
      then (db, Inl (NotAllowed
              (''Please enter valid method, i.e. one of '' @ join '', '' methods)))
      else
        (case format_and_regex_endpoint env (ed_endpoint data) of
           Inl e \<Rightarrow> (db, Inl e)
         | Inr (endpoint, regex_endpoint) \<Rightarrow>
             if filter (\<lambda>r. re_base_endpoint_id r = ed_id data \<and> re_endpoint r = endpoint
                            \<and> re_method r = ed_method data)
                  (RelativeEndpoint_objects db) \<noteq> []
             then (db, Inl (NotAllowed ''Endpoint with same method already exists''))
             else
               (let r = \<lparr>re_id = re_seq db + 1, re_base_endpoint_id = ed_id data,
                         re_endpoint = endpoint, re_method = ed_method data,
                         re_regex_endpoint = regex_endpoint,
                         re_meta_data = default_meta_data env\<rparr>
                in (db\<lparr>RelativeEndpoint_objects := RelativeEndpoint_objects db @ [r],
                       re_seq := re_seq db + 1\<rparr>, Inr r))))"

subsection \<open>schema_add\<close>

text \<open>The loop over \<open>data['fields']\<close>, with \<open>schema_datas\<close> the list built so far.\<close>

fun schema_add_fields ::
  "'j env \<Rightarrow> db \<Rightarrow> schema_row \<Rightarrow> schema_field list \<Rightarrow> schema_data_obj list
     \<Rightarrow> error + schema_data_obj list" where
  "schema_add_fields env db schema [] schema_datas = Inr schema_datas"
| "schema_add_fields env db schema (field # rest) schema_datas =
     (if sf_type field = ''schema''
      then
        (case objects_get (\<lambda>s. s_name s = sf_value field) (Schema_objects db) of
           Inl e \<Rightarrow> Inl e
         | Inr s \<Rightarrow>
             schema_add_fields env db schema rest
               (schema_datas @
                [\<lparr>sdo_schema_id = s_id schema, sdo_key = sf_key field,
                  sdo_type = sf_type field, sdo_value = s_id s\<rparr>]))
      else
        (if sf_value field \<notin> set (CHOICES env)
         then Inl (NotAllowed
                (''Please enter valid data type, i.e. one of '' @ join '', '' (CHOICES env)))
         else
           schema_add_fields env db schema rest
             (schema_datas @
              [\<lparr>sdo_schema_id = s_id schema, sdo_key = sf_key field,
                sdo_type = sf_type field,
                sdo_value = index_of (sf_value field) (CHOICES env)\<rparr>])))"

text \<open>\<open>Schema.objects.create(name=...)\<close>: the database with the new row, and the row.\<close>

definition Schema_create :: "string \<Rightarrow> db \<Rightarrow> db \<times> schema_row" where
  "Schema_create name db =
     (let schema = \<lparr>s_id = s_seq db + 1, s_name = name\<rparr>
      in (db\<lparr>Schema_objects := Schema_objects db @ [schema], s_seq := s_seq db + 1\<rparr>, schema))"

definition schema_add ::
  "'j env \<Rightarrow> schema_data \<Rightarrow> db \<Rightarrow> db \<times> (error + schema_detail)" where
  "schema_add env data db =
     (if filter (\<lambda>s. s_name s = sa_name data) (Schema_objects db) \<noteq> []
      then (db, Inl (NotAllowed (sa_name data @ '' schema already exists'')))
      else
        (case Schema_create (sa_name data) db of
           (db1, schema) \<Rightarrow>
             (case schema_add_fields env db1 schema (sa_fields data) [] of
                Inl e \<Rightarrow> (db1, Inl e)
              | Inr schema_datas \<Rightarrow>
                  (let db2 = SchemaData_bulk_create schema_datas db1
                   in (db2, Inr (Schema_detail db2 schema))))))"

subsection \<open>endpoint_schema_update\<close>

text \<open>The checks of one selected entry, by its type (the \<open>if\<close>/\<open>elif\<close> chain).\<close>

definition validate_field ::
  "'j env \<Rightarrow> string list \<Rightarrow> string list \<Rightarrow> field_entry \<Rightarrow> error + unit" where
  "validate_field env schemas available_url_params field =
     (if fe_type field = SCHEMA env then
        (if fe_value field \<notin> set schemas
         then Inl (NotAllowed
                (''Please enter valid schema name for '' @ [CHR 0x27] @ fe_key field
                 @ [CHR 0x27] @ '', i.e. one of '' @ join '', '' schemas))
         else Inr ())
      else if fe_type field = VALUE env then
        (if fe_value field \<notin> set (CHOICES env)
         then Inl (NotAllowed
                (''Please enter valid data type for '' @ [CHR 0x27] @ fe_key field
                 @ [CHR 0x27] @ '', i.e. one of '' @ join '', '' (CHOICES env)))
         else Inr ())
      else if fe_type field = URL_PARAM env then
        (if fe_value field \<notin> set available_url_params
         then Inl (NotAllowed
                (''Please enter valid url param for '' @ [CHR 0x27] @ fe_key field
                 @ [CHR 0x27] @ '', i.e. one of '' @ join '', '' available_url_params))
         else Inr ())
      else if fe_type field = QUERY_PARAM env then
        (if fe_value field = []
         then Inl (NotAllowed
                (''Please enter valid string for '' @ [CHR 0x27] @ fe_key field))
         else Inr ())
      else
        Inl (NotAllowed
          (''The field type should be one of '' @ SCHEMA env @ '', '' @ VALUE env
           @ '', '' @ URL_PARAM env)))"

text \<open>
  The first loop over \<open>data['fields']\<close>, with the two lists built so far: an entry
  without \<open>isChanged\<close> is skipped, a selected entry is checked and then appended to
  \<open>fields_to_change\<close> or to \<open>new_fields\<close>.
\<close>

fun select_fields ::
  "'j env \<Rightarrow> string list \<Rightarrow> string list \<Rightarrow> field_entry list
     \<Rightarrow> field_entry list \<Rightarrow> field_entry list
     \<Rightarrow> error + field_entry list \<times> field_entry list" where
  "select_fields env schemas available_url_params [] fields_to_change new_fields =
     Inr (fields_to_change, new_fields)"
| "select_fields env schemas available_url_params (field # rest) fields_to_change new_fields =
     (case fe_isChanged field of
        None \<Rightarrow>
          select_fields env schemas available_url_params rest fields_to_change new_fields
      | Some c \<Rightarrow>
          (case validate_field env schemas available_url_params field of
             Inl e \<Rightarrow> Inl e
           | Inr _ \<Rightarrow>
               if truthy c
               then select_fields env schemas available_url_params rest
                      (fields_to_change @ [field]) new_fields
               else select_fields env schemas available_url_params rest
                      fields_to_change (new_fields @ [field])))"

text \<open>\<open>Field.objects.filter(id=field['id']).update(...)\<close> for one entry.\<close>

definition update_field :: "int \<Rightarrow> field_entry \<Rightarrow> field_row \<Rightarrow> field_row" where
  "update_field i field r =
     (if f_id r = i
      then r\<lparr>f_key := fe_key field, f_value := fe_value field, f_type := fe_type field,
             f_is_array := fe_is_array field\<rparr>
      else r)"

text \<open>The second loop; reading \<open>field['id']\<close> of an entry without that key raises.\<close>

fun update_fields :: "field_entry list \<Rightarrow> field_row list \<Rightarrow> field_row list \<times> (error + unit)" where
  "update_fields [] rows = (rows, Inr ())"
| "update_fields (field # rest) rows =
     (case fe_id field of
        None \<Rightarrow> (rows, Inl (KeyError ''id''))
      | Some i \<Rightarrow> update_fields rest (map (update_field i field) rows))"

definition new_field :: "int \<Rightarrow> field_entry \<Rightarrow> field_obj" where
  "new_field rid field =
     \<lparr>fo_relative_endpoint_id = rid, fo_key = fe_key field, fo_type = fe_type field,
      fo_value = fe_value field, fo_is_array = fe_is_array field\<rparr>"

text \<open>The ids of the entries that have an \<open>id\<close> key with a positive value.\<close>

definition kept_ids :: "field_entry list \<Rightarrow> int list" where
  "kept_ids fs =
     concat (map (\<lambda>field. case fe_id field of
                             None \<Rightarrow> []
                           | Some i \<Rightarrow> if i > 0 then [i] else []) fs)"

text \<open>\<open>endpoint.fields.exclude(id__in=ids).delete()\<close>.\<close>

definition delete_fields_excluding :: "int \<Rightarrow> int list \<Rightarrow> db \<Rightarrow> db" where
  "delete_fields_excluding rid ids db =
     db\<lparr>Field_objects :=
          filter (\<lambda>r. \<not> (f_relative_endpoint_id r = rid \<and> f_id r \<notin> set ids))
            (Field_objects db)\<rparr>"

definition endpoint_schema_update ::
  "'j env \<Rightarrow> schema_update_data \<Rightarrow> db \<Rightarrow> db \<times> (error + relative_endpoint)" where
  "endpoint_schema_update env data db =
     (case objects_get (\<lambda>r. re_id r = su_id data) (RelativeEndpoint_objects db) of
        Inl e \<Rightarrow> (db, Inl e)
      | Inr endpoint \<Rightarrow>
          (let db1 = delete_fields_excluding (re_id endpoint) (kept_ids (su_fields data)) db;
               available_url_params = url_params env (re_endpoint endpoint);
               schemas = map s_name (Schema_objects db1)
           in case select_fields env schemas available_url_params (su_fields data) [] [] of
                Inl e \<Rightarrow> (db1, Inl e)
              | Inr (fields_to_change, new_fields) \<Rightarrow>
                  (case update_fields fields_to_change (Field_objects db1) of
                     (rows, Inl e) \<Rightarrow> (db1\<lparr>Field_objects := rows\<rparr>, Inl e)
                   | (rows, Inr _) \<Rightarrow>
                       (let db2 = Field_bulk_create (map (new_field (su_id data)) new_fields)
                                    (db1\<lparr>Field_objects := rows\<rparr>);
                            endpoint' = endpoint\<lparr>re_meta_data := su_meta_data data\<rparr>
                        in (RelativeEndpoint_save endpoint' db2, Inr endpoint')))))"

subsection \<open>relative_endpoint_update and relative_endpoint_delete\<close>

definition relative_endpoint_update ::
  "'j env \<Rightarrow> endpoint_data \<Rightarrow> db \<Rightarrow> db \<times> (error + unit)" where
  "relative_endpoint_update env data db =
     (case objects_get (\<lambda>r. re_id r = ed_id data) (RelativeEndpoint_objects db) of
        Inl e \<Rightarrow> (db, Inl e)
      | Inr relative_endpoint \<Rightarrow>
          (case format_and_regex_endpoint env (ed_endpoint data) of
             Inl e \<Rightarrow> (db, Inl e)
           | Inr (endpoint, regex_endpoint) \<Rightarrow>
               if filter (\<lambda>r. re_base_endpoint_id r = re_base_endpoint_id relative_endpoint
                              \<and> re_endpoint r = endpoint \<and> re_method r = ed_method data)
                    (RelativeEndpoint_objects db) \<noteq> []
               then (db, Inl (NotAllowed ''Endpoint with same url exists''))
               else
                 (db\<lparr>RelativeEndpoint_objects :=
                       map (\<lambda>r. if re_id r = ed_id data
                                 then r\<lparr>re_endpoint := endpoint, re_method := ed_method data,
                                        re_regex_endpoint := regex_endpoint\<rparr>
                                 else r)
                         (RelativeEndpoint_objects db)\<rparr>, Inr ())))"

text \<open>
  Modelled from the spec: the foreign key of \<open>Field\<close> is declared in \<open>models\<close>, which is
  not among the sources. Delete removes the RelativeEndpoint and, by ownership cascade,
  its Fields.
\<close>

definition relative_endpoint_delete :: "int \<Rightarrow> db \<Rightarrow> db" where
  "relative_endpoint_delete rid db =
     db\<lparr>RelativeEndpoint_objects := filter (\<lambda>r. re_id r \<noteq> rid) (RelativeEndpoint_objects db),
        Field_objects := filter (\<lambda>f. f_relative_endpoint_id f \<noteq> rid) (Field_objects db)\<rparr>"

subsection \<open>data_export and data_import\<close>

definition data_export :: "'j env \<Rightarrow> db \<Rightarrow> error + 'j snapshot" where
  "data_export env db =
     (case details (RelativeEndpoint_detail env db) (RelativeEndpoint_objects db) of
        Inl e \<Rightarrow> Inl e
      | Inr relative_endpoints \<Rightarrow>
          Inr \<lparr>snap_base_endpoints = BaseEndpoint_objects db,
               snap_relative_endpoints = relative_endpoints,
               snap_schema = map (Schema_detail db) (Schema_objects db),
               snap_fields = map Field_detail (Field_objects db),
               snap_schema_data = map SchemaData_detail (SchemaData_objects db)\<rparr>)"

text \<open>
  The loop over \<open>data['relative_endpoints']\<close>: the embedded fields become rows that
  carry the id of their endpoint, the endpoint becomes a row with \<open>meta_data\<close>
  serialised again.
\<close>

definition import_fields :: "'j relative_endpoint_detail \<Rightarrow> field_row list" where
  "import_fields endpoint =
     map (\<lambda>field. \<lparr>f_id = fd_id field, f_relative_endpoint_id = rd_id endpoint,
                    f_key = fd_key field, f_type = fd_type field, f_value = fd_value field,
                    f_is_array = fd_is_array field\<rparr>)
       (rd_fields endpoint)"

definition import_relative_endpoint ::
  "'j env \<Rightarrow> 'j relative_endpoint_detail \<Rightarrow> relative_endpoint" where
  "import_relative_endpoint env endpoint =
     \<lparr>re_id = rd_id endpoint, re_base_endpoint_id = rd_base_endpoint endpoint,
      re_endpoint = rd_endpoint endpoint, re_method = rd_method endpoint,
      re_regex_endpoint = rd_regex_endpoint endpoint,
      re_meta_data = json_dumps env (rd_meta_data endpoint)\<rparr>"

definition import_schema :: "schema_detail \<Rightarrow> schema_row" where
  "import_schema schema = \<lparr>s_id = sc_id schema, s_name = sc_name schema\<rparr>"

definition import_schema_data :: "schema_data_detail \<Rightarrow> schema_data_row" where
  "import_schema_data d =
     \<lparr>sd_id = sdd_id d, sd_schema_id = sdd_schema d, sd_key = sdd_key d,
      sd_type = sdd_type d, sd_value = sdd_value d\<rparr>"

definition data_import :: "'j env \<Rightarrow> 'j snapshot \<Rightarrow> db \<Rightarrow> db \<times> (error + unit)" where
  "data_import env data db =
     (let db0 = db\<lparr>BaseEndpoint_objects := [], RelativeEndpoint_objects := [],
                   Field_objects := [], Schema_objects := [], SchemaData_objects := []\<rparr>
      in case pk_insert be_id (snap_base_endpoints data) (BaseEndpoint_objects db0) of
           Inl e \<Rightarrow> (db0, Inl e)
         | Inr bs \<Rightarrow>
      (let db1 = db0\<lparr>BaseEndpoint_objects := bs,
                     be_seq := bump_seq (be_seq db0) (map be_id (snap_base_endpoints data))\<rparr>;
           relative_endpoints = map (import_relative_endpoint env) (snap_relative_endpoints data);
           fields = concat (map import_fields (snap_relative_endpoints data))
       in case pk_insert re_id relative_endpoints (RelativeEndpoint_objects db1) of
            Inl e \<Rightarrow> (db1, Inl e)
          | Inr rs \<Rightarrow>
      (let db2 = db1\<lparr>RelativeEndpoint_objects := rs,
                     re_seq := bump_seq (re_seq db1) (map re_id relative_endpoints)\<rparr>
       in case pk_insert f_id fields (Field_objects db2) of
            Inl e \<Rightarrow> (db2, Inl e)
          | Inr fs \<Rightarrow>
      (let db3 = db2\<lparr>Field_objects := fs, f_seq := bump_seq (f_seq db2) (map f_id fields)\<rparr>;
           schemas = map import_schema (snap_schema data)
       in case pk_insert s_id schemas (Schema_objects db3) of
            Inl e \<Rightarrow> (db3, Inl e)
          | Inr ss \<Rightarrow>
      (let db4 = db3\<lparr>Schema_objects := ss, s_seq := bump_seq (s_seq db3) (map s_id schemas)\<rparr>;
           schema_datas = map import_schema_data (snap_schema_data data)
       in case pk_insert sd_id schema_datas (SchemaData_objects db4) of
            Inl e \<Rightarrow> (db4, Inl e)
          | Inr ds \<Rightarrow>
              (db4\<lparr>SchemaData_objects := ds,
                   sd_seq := bump_seq (sd_seq db4) (map sd_id schema_datas)\<rparr>, Inr ()))))))"

section \<open>An environment to run the services in\<close>

text \<open>
  Modelled from the spec: \<open>format_and_regex_endpoint\<close> belongs to \<open>utils\<close> and the
  \<open>url_params\<close> property to \<open>models\<close>, neither among the sources. The normalised path
  begins with exactly one leading slash; each \<open>{name}\<close> placeholder becomes a capturing
  group matching one path segment, the expression anchored to the whole path; a
  malformed placeholder and the empty path are rejected; \<open>url_params\<close> is the ordered
  set of placeholder names found, duplicates collapsed.
\<close>

fun scan_path :: "string \<Rightarrow> string option \<Rightarrow> error + string \<times> string list" where
  "scan_path [] None = Inr ([], [])"
| "scan_path [] (Some n) = Inl (NotAllowed (''Invalid url parameter {'' @ n))"
| "scan_path (c # cs) None =
     (if c = CHR ''{'' then scan_path cs (Some [])
      else if c = CHR ''}'' then Inl (NotAllowed (''Invalid url parameter '' @ c # cs))
      else (case scan_path cs None of
              Inl e \<Rightarrow> Inl e
            | Inr (rx, ps) \<Rightarrow> Inr (c # rx, ps)))"
| "scan_path (c # cs) (Some n) =
     (if c = CHR ''}'' then
        (if n = [] then Inl (NotAllowed ''Invalid url parameter {}'')
         else (case scan_path cs None of
                 Inl e \<Rightarrow> Inl e
               | Inr (rx, ps) \<Rightarrow> Inr (''([^/]+)'' @ rx, n # ps)))
      else if c = CHR ''{'' \<or> c = CHR ''/''
        then Inl (NotAllowed (''Invalid url parameter {'' @ n @ [c]))
      else scan_path cs (Some (n @ [c])))"

text \<open>
  Modelled from the spec: the formatter. The normalised path begins with exactly one
  leading slash, the empty path is rejected, the expression is anchored at both ends.
\<close>

definition spec_format_and_regex_endpoint :: "string \<Rightarrow> error + string \<times> string" where
  "spec_format_and_regex_endpoint raw =
     (if raw = [] then Inl (NotAllowed ''Endpoint cannot be empty'')
      else
        (let path = CHR ''/'' # dropWhile (\<lambda>c. c = CHR ''/'') raw
         in case scan_path path None of
              Inl e \<Rightarrow> Inl e
            | Inr (rx, ps) \<Rightarrow> Inr (path, ''^'' @ rx @ ''$'')))"

text \<open>
  Modelled from the spec: \<open>url_params\<close>, the placeholder names of the template in
  order, a repeated name kept where it first occurs.
\<close>

definition spec_url_params :: "string \<Rightarrow> string list" where
  "spec_url_params path =
     (case scan_path path None of
        Inl e \<Rightarrow> []
      | Inr (rx, ps) \<Rightarrow> rev (remdups (rev ps)))"

text \<open>
  Modelled from the spec: the constants of \<open>models\<close>. The methods are the closed set
  GET/POST/PUT/PATCH/DELETE, the field types SCHEMA, VALUE, URL_PARAM and QUERY_PARAM,
  the primitive type names the ones the spec gives as examples. Parsed JSON is
  represented by its text without blanks: the parser drops the blanks between the
  tokens and the serialiser writes the text (as \<open>json.dumps\<close> does for the empty
  object, the only value the examples parse).
\<close>

definition spec_env :: "string env" where
  "spec_env =
     \<lparr>CHOICES = [''string'', ''integer'', ''boolean''],
      METHODS = [(''GET'', ''GET''), (''POST'', ''POST''), (''PUT'', ''PUT''),
                 (''PATCH'', ''PATCH''), (''DELETE'', ''DELETE'')],
      SCHEMA = ''SCHEMA'', VALUE = ''VALUE'', URL_PARAM = ''URL_PARAM'',
      QUERY_PARAM = ''QUERY_PARAM'',
      format_and_regex_endpoint = spec_format_and_regex_endpoint,
      url_params = spec_url_params,
      default_meta_data = ''{}'',
      json_loads = (\<lambda>s. Some (filter (\<lambda>c. c \<noteq> CHR '' '') s)),
      json_dumps = (\<lambda>j. j)\<rparr>"

section \<open>Notions of the specification\<close>

text \<open>
  The three classes of incoming entries in the words of the specification: an entry
  is selected when it carries the key \<open>isChanged\<close>; a selected entry is an update when
  the value is truthy and a creation when it is falsy.
\<close>

definition entry_selected :: "field_entry \<Rightarrow> bool" where
  "entry_selected field = (fe_isChanged field \<noteq> None)"

definition entry_is_update :: "field_entry \<Rightarrow> bool" where
  "entry_is_update field = (case fe_isChanged field of None \<Rightarrow> False | Some c \<Rightarrow> truthy c)"

definition entry_is_new :: "field_entry \<Rightarrow> bool" where
  "entry_is_new field = (case fe_isChanged field of None \<Rightarrow> False | Some c \<Rightarrow> \<not> truthy c)"

text \<open>An entry applied to a row: the row it selects by id takes its four columns.\<close>

definition apply_entry :: "field_entry \<Rightarrow> field_row \<Rightarrow> field_row" where
  "apply_entry field r =
     (if fe_id field = Some (f_id r)
      then r\<lparr>f_key := fe_key field, f_value := fe_value field, f_type := fe_type field,
             f_is_array := fe_is_array field\<rparr>
      else r)"

text \<open>
  A field of a schema request resolves when its value names exactly one schema (type
  \<open>schema\<close>) or is a primitive type name (any other type).
\<close>

definition field_resolves :: "'j env \<Rightarrow> db \<Rightarrow> schema_field \<Rightarrow> bool" where
  "field_resolves env db field =
     (if sf_type field = ''schema''
      then length (filter (\<lambda>s. s_name s = sf_value field) (Schema_objects db)) = 1
      else sf_value field \<in> set (CHOICES env))"

text \<open>The new triple collides with a row other than the one being updated.\<close>

definition collides_with_other :: "db \<Rightarrow> int \<Rightarrow> int \<Rightarrow> string \<Rightarrow> string \<Rightarrow> bool" where
  "collides_with_other db rid base endpoint method =
     (filter (\<lambda>r. re_id r \<noteq> rid \<and> re_base_endpoint_id r = base \<and> re_endpoint r = endpoint
                  \<and> re_method r = method)
        (RelativeEndpoint_objects db) \<noteq> [])"

text \<open>
  An endpoint row with its \<open>meta_data\<close> parsed and serialised again, which is how an
  import of its export stores it (a text that does not parse is left as it is).
\<close>

definition reserialise :: "'j env \<Rightarrow> relative_endpoint \<Rightarrow> relative_endpoint" where
  "reserialise env r =
     (case json_loads env (re_meta_data r) of
        None \<Rightarrow> r
      | Some j \<Rightarrow> r\<lparr>re_meta_data := json_dumps env j\<rparr>)"

text \<open>
  For every endpoint, the parser reads the parsed \<open>meta_data\<close> back from what the
  serialiser writes of it.
\<close>

definition meta_data_reads_back :: "'j env \<Rightarrow> db \<Rightarrow> bool" where
  "meta_data_reads_back env db =
     list_all (\<lambda>r. case json_loads env (re_meta_data r) of
                      None \<Rightarrow> True
                    | Some j \<Rightarrow> json_loads env (json_dumps env j) = Some j)
       (RelativeEndpoint_objects db)"

text \<open>
  The database with every endpoint row serialised again and the field rows grouped by
  their endpoint, in the order of the endpoints.
\<close>

definition regrouped :: "'j env \<Rightarrow> db \<Rightarrow> db" where
  "regrouped env db =
     db\<lparr>RelativeEndpoint_objects := map (reserialise env) (RelativeEndpoint_objects db),
        Field_objects :=
          concat (map (\<lambda>r. filter (\<lambda>f. f_relative_endpoint_id f = re_id r) (Field_objects db))
                    (RelativeEndpoint_objects db))\<rparr>"

section \<open>Reachable states and their invariant\<close>

inductive reachable :: "'j env \<Rightarrow> db \<Rightarrow> bool" for env :: "'j env" where
  initial: "reachable env empty_db"
| after_base_endpoint_add:
    "reachable env db \<Longrightarrow> reachable env (fst (base_endpoint_add endpoint db))"
| after_relative_endpoint_add:
    "reachable env db \<Longrightarrow> reachable env (fst (relative_endpoint_add env ed db))"
| after_schema_add:
    "reachable env db \<Longrightarrow> reachable env (fst (schema_add env sa db))"
| after_endpoint_schema_update:
    "reachable env db \<Longrightarrow> reachable env (fst (endpoint_schema_update env su db))"
| after_relative_endpoint_update:
    "reachable env db \<Longrightarrow> reachable env (fst (relative_endpoint_update env ed db))"
| after_relative_endpoint_delete:
    "reachable env db \<Longrightarrow> reachable env (relative_endpoint_delete rid db)"
| after_data_import:
    "reachable env db \<Longrightarrow> reachable env (fst (data_import env snap db))"

text \<open>
  Primary keys are unique and no larger than the table's counter, and every field
  belongs to an endpoint of the table.
\<close>

definition ids_ok :: "int list \<Rightarrow> int \<Rightarrow> bool" where
  "ids_ok ids n = (distinct ids \<and> list_all (\<lambda>i. i \<le> n) ids)"

definition wf_db :: "db \<Rightarrow> bool" where
  "wf_db db =
     (ids_ok (map be_id (BaseEndpoint_objects db)) (be_seq db)
      \<and> ids_ok (map re_id (RelativeEndpoint_objects db)) (re_seq db)
      \<and> ids_ok (map f_id (Field_objects db)) (f_seq db)
      \<and> ids_ok (map s_id (Schema_objects db)) (s_seq db)
      \<and> ids_ok (map sd_id (SchemaData_objects db)) (sd_seq db)
      \<and> list_all (\<lambda>f. f_relative_endpoint_id f \<in> set (map re_id (RelativeEndpoint_objects db)))
           (Field_objects db))"

section \<open>Example states and requests\<close>

definition ex_db :: db where
  "ex_db =
     \<lparr>BaseEndpoint_objects = [\<lparr>be_id = 1, be_endpoint = ''api''\<rparr>], be_seq = 1,
      RelativeEndpoint_objects =
        [\<lparr>re_id = 1, re_base_endpoint_id = 1, re_endpoint = ''/users/{id}'',
          re_method = ''GET'', re_regex_endpoint = ''^/users/([^/]+)$'', re_meta_data = ''{}''\<rparr>,
         \<lparr>re_id = 2, re_base_endpoint_id = 1, re_endpoint = ''/posts'',
          re_method = ''GET'', re_regex_endpoint = ''^/posts$'', re_meta_data = ''{}''\<rparr>],
      re_seq = 2,
      Field_objects =
        [\<lparr>f_id = 1, f_relative_endpoint_id = 1, f_key = ''name'', f_type = ''VALUE'',
          f_value = ''string'', f_is_array = False\<rparr>,
         \<lparr>f_id = 2, f_relative_endpoint_id = 2, f_key = ''title'', f_type = ''VALUE'',
          f_value = ''string'', f_is_array = False\<rparr>,
         \<lparr>f_id = 3, f_relative_endpoint_id = 1, f_key = ''uid'', f_type = ''URL_PARAM'',
          f_value = ''id'', f_is_array = False\<rparr>],
      f_seq = 3,
      Schema_objects = [\<lparr>s_id = 1, s_name = ''User''\<rparr>], s_seq = 1,
      SchemaData_objects =
        [\<lparr>sd_id = 1, sd_schema_id = 1, sd_key = ''name'', sd_type = ''value'', sd_value = 0\<rparr>],
      sd_seq = 1\<rparr>"

text \<open>The requests that lead from the empty database to \<open>ex_db\<close>, in order.\<close>

definition ex_users :: endpoint_data where
  "ex_users = \<lparr>ed_id = 1, ed_endpoint = ''users/{id}'', ed_method = ''GET''\<rparr>"

definition ex_posts :: endpoint_data where
  "ex_posts = \<lparr>ed_id = 1, ed_endpoint = ''/posts'', ed_method = ''GET''\<rparr>"

definition ex_schema :: schema_data where
  "ex_schema =
     \<lparr>sa_name = ''User'',
      sa_fields = [\<lparr>sf_key = ''name'', sf_type = ''value'', sf_value = ''string''\<rparr>]\<rparr>"

definition ex_update1 :: schema_update_data where
  "ex_update1 =
     \<lparr>su_id = 1,
      su_fields = [\<lparr>fe_id = None, fe_key = ''name'', fe_type = ''VALUE'', fe_value = ''string'',
                    fe_is_array = False, fe_isChanged = Some (PyBool False)\<rparr>],
      su_meta_data = ''{}''\<rparr>"

definition ex_update2 :: schema_update_data where
  "ex_update2 =
     \<lparr>su_id = 2,
      su_fields = [\<lparr>fe_id = None, fe_key = ''title'', fe_type = ''VALUE'', fe_value = ''string'',
                    fe_is_array = False, fe_isChanged = Some (PyBool False)\<rparr>],
      su_meta_data = ''{}''\<rparr>"

definition ex_update3 :: schema_update_data where
  "ex_update3 =
     \<lparr>su_id = 1,
      su_fields = [\<lparr>fe_id = Some 1, fe_key = ''name'', fe_type = ''VALUE'', fe_value = ''string'',
                    fe_is_array = False, fe_isChanged = None\<rparr>,
                   \<lparr>fe_id = None, fe_key = ''uid'', fe_type = ''URL_PARAM'', fe_value = ''id'',
                    fe_is_array = False, fe_isChanged = Some (PyBool False)\<rparr>],
      su_meta_data = ''{}''\<rparr>"

text \<open>
  A request on endpoint 1 of \<open>ex_db\<close> with one entry of each class: an entry without
  \<open>isChanged\<close> (with a type that no check would accept), an update of row 3 and a
  creation. The second list differs from the first in the unselected entry only.
\<close>

definition ex_entries :: "field_entry list" where
  "ex_entries =
     [\<lparr>fe_id = Some 1, fe_key = ''name'', fe_type = ''BOGUS'', fe_value = ''x'',
       fe_is_array = False, fe_isChanged = None\<rparr>,
      \<lparr>fe_id = Some 3, fe_key = ''user_id'', fe_type = ''URL_PARAM'', fe_value = ''id'',
       fe_is_array = True, fe_isChanged = Some (PyInt 1)\<rparr>,
      \<lparr>fe_id = None, fe_key = ''q'', fe_type = ''QUERY_PARAM'', fe_value = ''search'',
       fe_is_array = False, fe_isChanged = Some (PyStr [])\<rparr>]"

definition ex_entries' :: "field_entry list" where
  "ex_entries' =
     [\<lparr>fe_id = Some 1, fe_key = ''other'', fe_type = ''VALUE'', fe_value = ''float'',
       fe_is_array = True, fe_isChanged = None\<rparr>,
      \<lparr>fe_id = Some 3, fe_key = ''user_id'', fe_type = ''URL_PARAM'', fe_value = ''id'',
       fe_is_array = True, fe_isChanged = Some (PyInt 1)\<rparr>,
      \<lparr>fe_id = None, fe_key = ''q'', fe_type = ''QUERY_PARAM'', fe_value = ''search'',
       fe_is_array = False, fe_isChanged = Some (PyStr [])\<rparr>]"

definition ex_request :: schema_update_data where
  "ex_request = \<lparr>su_id = 1, su_fields = ex_entries, su_meta_data = ''{}''\<rparr>"

text \<open>The snapshot that \<open>data_export\<close> takes of \<open>ex_db\<close>.\<close>

definition ex_snapshot :: "string snapshot" where
  "ex_snapshot =
     \<lparr>snap_base_endpoints = [\<lparr>be_id = 1, be_endpoint = ''api''\<rparr>],
      snap_relative_endpoints =
        [\<lparr>rd_id = 1, rd_base_endpoint = 1, rd_endpoint = ''/users/{id}'', rd_method = ''GET'',
          rd_regex_endpoint = ''^/users/([^/]+)$'', rd_meta_data = ''{}'',
          rd_fields =
            [\<lparr>fd_id = 1, fd_key = ''name'', fd_type = ''VALUE'', fd_value = ''string'',
              fd_is_array = False\<rparr>,
             \<lparr>fd_id = 3, fd_key = ''uid'', fd_type = ''URL_PARAM'', fd_value = ''id'',
              fd_is_array = False\<rparr>],
          rd_url_params = [''id'']\<rparr>,
         \<lparr>rd_id = 2, rd_base_endpoint = 1, rd_endpoint = ''/posts'', rd_method = ''GET'',
          rd_regex_endpoint = ''^/posts$'', rd_meta_data = ''{}'',
          rd_fields =
            [\<lparr>fd_id = 2, fd_key = ''title'', fd_type = ''VALUE'', fd_value = ''string'',
              fd_is_array = False\<rparr>],
          rd_url_params = []\<rparr>],
      snap_schema =
        [\<lparr>sc_id = 1, sc_name = ''User'',
          sc_schema = [\<lparr>sdd_id = 1, sdd_schema = 1, sdd_key = ''name'', sdd_type = ''value'',
                        sdd_value = 0\<rparr>]\<rparr>],
      snap_fields =
        [\<lparr>fd_id = 1, fd_key = ''name'', fd_type = ''VALUE'', fd_value = ''string'',
          fd_is_array = False\<rparr>,
         \<lparr>fd_id = 2, fd_key = ''title'', fd_type = ''VALUE'', fd_value = ''string'',
          fd_is_array = False\<rparr>,
         \<lparr>fd_id = 3, fd_key = ''uid'', fd_type = ''URL_PARAM'', fd_value = ''id'',
          fd_is_array = False\<rparr>],
      snap_schema_data =
        [\<lparr>sdd_id = 1, sdd_schema = 1, sdd_key = ''name'', sdd_type = ''value'', sdd_value = 0\<rparr>]\<rparr>"

text \<open>
  The example database after one more request, which stores a \<open>meta_data\<close> with a blank
  in it for endpoint 2.
\<close>

definition ex_update4 :: schema_update_data where
  "ex_update4 =
     \<lparr>su_id = 2,
      su_fields = [\<lparr>fe_id = Some 2, fe_key = ''title'', fe_type = ''VALUE'', fe_value = ''string'',
                    fe_is_array = False, fe_isChanged = None\<rparr>],
      su_meta_data = ''{ }''\<rparr>"

definition ex_db' :: db where
  "ex_db' =
     ex_db\<lparr>RelativeEndpoint_objects :=
             [\<lparr>re_id = 1, re_base_endpoint_id = 1, re_endpoint = ''/users/{id}'',
               re_method = ''GET'', re_regex_endpoint = ''^/users/([^/]+)$'',
               re_meta_data = ''{}''\<rparr>,
              \<lparr>re_id = 2, re_base_endpoint_id = 1, re_endpoint = ''/posts'',
               re_method = ''GET'', re_regex_endpoint = ''^/posts$'', re_meta_data = ''{ }''\<rparr>]\<rparr>"

section \<open>Facts about the persistence calls\<close>

lemma filter_single_mem: "filter p xs = [x] \<Longrightarrow> x \<in> set xs \<and> p x"
proof -
  assume "filter p xs = [x]"
  then have "x \<in> set (filter p xs)" by simp
  then show ?thesis by simp
qed

lemma filter_single_uniq: "filter p xs = [x] \<Longrightarrow> y \<in> set xs \<Longrightarrow> p y \<Longrightarrow> y = x"
proof -
  assume a: "filter p xs = [x]" and b: "y \<in> set xs" "p y"
  from b have "y \<in> set (filter p xs)" by simp
  then have "y \<in> set [x]" by (simp only: a)
  then show ?thesis by simp
qed

lemma objects_get_Inl:
  "objects_get p rows = Inl e \<Longrightarrow> e = DoesNotExist \<or> e = MultipleObjectsReturned"
  by (auto simp: objects_get_def split: list.splits)

lemma objects_get_Inr: "objects_get p rows = Inr r \<longleftrightarrow> filter p rows = [r]"
  by (auto simp: objects_get_def split: list.splits)

lemma save_fields_ids: "r \<in> set (save_fields n objs) \<Longrightarrow> n < f_id r"
  by (induction objs arbitrary: n) force+

lemma save_fields_endpoint:
  "r \<in> set (save_fields n (map (new_field rid) fs)) \<Longrightarrow> f_relative_endpoint_id r = rid"
  by (induction fs arbitrary: n) (auto simp: new_field_def)

section \<open>The loops of endpoint_schema_update\<close>

lemma select_fields_Inr:
  "select_fields env s p fs a b = Inr (a', b') \<Longrightarrow>
     a' = a @ filter entry_is_update fs \<and> b' = b @ filter entry_is_new fs"
proof (induction fs arbitrary: a b)
  case Nil
  then show ?case by simp
next
  case (Cons f fs)
  show ?case
  proof (cases "fe_isChanged f")
    case None
    with Cons show ?thesis by (simp add: entry_is_update_def entry_is_new_def)
  next
    case (Some c)
    show ?thesis
    proof (cases "validate_field env s p f")
      case (Inl e)
      with Some Cons.prems show ?thesis by simp
    next
      case (Inr u)
      show ?thesis
      proof (cases "truthy c")
        case True
        with Some Inr Cons.prems
        have "select_fields env s p fs (a @ [f]) b = Inr (a', b')" by simp
        from Cons.IH [OF this] Some True show ?thesis
          by (simp add: entry_is_update_def entry_is_new_def)
      next
        case False
        with Some Inr Cons.prems
        have "select_fields env s p fs a (b @ [f]) = Inr (a', b')" by simp
        from Cons.IH [OF this] Some False show ?thesis
          by (simp add: entry_is_update_def entry_is_new_def)
      qed
    qed
  qed
qed

lemma select_fields_filter:
  "select_fields env s p (filter entry_selected fs) a b = select_fields env s p fs a b"
  by (induction fs arbitrary: a b)
     (auto simp: entry_selected_def split: option.splits sum.splits)

lemma select_fields_valid_prefix:
  "\<forall>f\<in>set pre. entry_selected f \<longrightarrow> validate_field env s p f = Inr () \<Longrightarrow>
     select_fields env s p (pre @ rest) a b =
     select_fields env s p rest (a @ filter entry_is_update pre) (b @ filter entry_is_new pre)"
  by (induction pre arbitrary: a b)
     (auto simp: entry_selected_def entry_is_update_def entry_is_new_def split: option.splits)

lemma update_fields_Inl: "update_fields es rows = (rows', Inl e) \<Longrightarrow> e = KeyError ''id''"
  by (induction es arbitrary: rows) (auto split: option.splits)

lemma update_field_apply_entry: "fe_id e = Some i \<Longrightarrow> update_field i e = apply_entry e"
  by (auto simp: update_field_def apply_entry_def fun_eq_iff)

lemma update_fields_Inr:
  "update_fields es rows = (rows', Inr u) \<Longrightarrow> rows' = map (\<lambda>r. fold apply_entry es r) rows"
proof (induction es arbitrary: rows)
  case Nil
  then show ?case by simp
next
  case (Cons e es)
  then obtain i where i: "fe_id e = Some i" by (cases "fe_id e") auto
  with Cons.prems have "update_fields es (map (apply_entry e) rows) = (rows', Inr u)"
    by (simp add: update_field_apply_entry)
  from Cons.IH [OF this] show ?case by (simp add: comp_def)
qed

lemma update_fields_origin:
  "update_fields es rows = (rows', res) \<Longrightarrow> r' \<in> set rows' \<Longrightarrow>
     \<exists>r\<in>set rows. f_id r = f_id r' \<and> f_relative_endpoint_id r = f_relative_endpoint_id r'"
proof (induction es arbitrary: rows)
  case Nil
  then show ?case by auto
next
  case (Cons e es)
  show ?case
  proof (cases "fe_id e")
    case None
    with Cons.prems show ?thesis by auto
  next
    case (Some i)
    with Cons.prems have "update_fields es (map (update_field i e) rows) = (rows', res)"
      by simp
    from Cons.IH [OF this Cons.prems(2)]
    obtain r where "r \<in> set rows" "f_id (update_field i e r) = f_id r'"
      "f_relative_endpoint_id (update_field i e r) = f_relative_endpoint_id r'"
      by auto
    then show ?thesis by (auto simp: update_field_def split: if_splits)
  qed
qed

section \<open>endpoint_schema_update\<close>

text \<open>
  Claim C10. With an empty incoming list the call succeeds for an existing endpoint: every
  field of that endpoint is deleted, no other field row changes and none is created,
  and the endpoint's \<open>meta_data\<close> is overwritten with the supplied value.
\<close>

theorem endpoint_schema_update_empty_fields:
  assumes "filter (\<lambda>r. re_id r = su_id data) (RelativeEndpoint_objects db) = [endpoint]"
      and "su_fields data = []"
  shows "endpoint_schema_update env data db =
     (db\<lparr>Field_objects :=
           filter (\<lambda>f. f_relative_endpoint_id f \<noteq> su_id data) (Field_objects db),
         RelativeEndpoint_objects :=
           map (\<lambda>r. if re_id r = su_id data then r\<lparr>re_meta_data := su_meta_data data\<rparr> else r)
             (RelativeEndpoint_objects db)\<rparr>,
      Inr (endpoint\<lparr>re_meta_data := su_meta_data data\<rparr>))"
proof -
  have mem: "endpoint \<in> set (RelativeEndpoint_objects db)"
    and eid: "re_id endpoint = su_id data"
    using filter_single_mem [OF assms(1)] by simp_all
  have uniq: "\<And>r. r \<in> set (RelativeEndpoint_objects db) \<Longrightarrow> re_id r = su_id data
                \<Longrightarrow> r = endpoint"
    using filter_single_uniq [OF assms(1)] by simp
  have m: "map (\<lambda>r. if re_id r = su_id data
                     then endpoint\<lparr>re_meta_data := su_meta_data data\<rparr> else r)
             (RelativeEndpoint_objects db)
      = map (\<lambda>r. if re_id r = su_id data then r\<lparr>re_meta_data := su_meta_data data\<rparr> else r)
          (RelativeEndpoint_objects db)"
    using uniq by (intro map_cong) auto
  have im: "su_id data \<in> re_id ` set (RelativeEndpoint_objects db)"
    using mem eid by force
  show ?thesis
    using assms(2) eid m im
    by (simp add: endpoint_schema_update_def objects_get_def assms(1) kept_ids_def
        delete_fields_excluding_def Field_bulk_create_def RelativeEndpoint_save_def Let_def)
qed

theorem endpoint_schema_update_empty_fields_witness:
  "endpoint_schema_update spec_env \<lparr>su_id = 1, su_fields = [], su_meta_data = ''{\"a\": 1}''\<rparr> ex_db =
     (ex_db\<lparr>Field_objects :=
              [\<lparr>f_id = 2, f_relative_endpoint_id = 2, f_key = ''title'', f_type = ''VALUE'',
                f_value = ''string'', f_is_array = False\<rparr>],
            RelativeEndpoint_objects :=
              [\<lparr>re_id = 1, re_base_endpoint_id = 1, re_endpoint = ''/users/{id}'',
                re_method = ''GET'', re_regex_endpoint = ''^/users/([^/]+)$'',
                re_meta_data = ''{\"a\": 1}''\<rparr>,
               \<lparr>re_id = 2, re_base_endpoint_id = 1, re_endpoint = ''/posts'',
                re_method = ''GET'', re_regex_endpoint = ''^/posts$'', re_meta_data = ''{}''\<rparr>]\<rparr>,
      Inr \<lparr>re_id = 1, re_base_endpoint_id = 1, re_endpoint = ''/users/{id}'',
           re_method = ''GET'', re_regex_endpoint = ''^/users/([^/]+)$'',
           re_meta_data = ''{\"a\": 1}''\<rparr>)"
  using endpoint_schema_update_empty_fields
    [of "\<lparr>su_id = 1, su_fields = [], su_meta_data = ''{\"a\": 1}''\<rparr>" ex_db
        "\<lparr>re_id = 1, re_base_endpoint_id = 1, re_endpoint = ''/users/{id}'',
          re_method = ''GET'', re_regex_endpoint = ''^/users/([^/]+)$'', re_meta_data = ''{}''\<rparr>"
        spec_env]
  by (simp add: ex_db_def)

text \<open>
  Claim C2. When the call ends with the not-allowed failure, the database is the one
  left by the deletion of step 1: the fields of the endpoint that the incoming ids do
  not keep are gone, and nothing else has changed (no field updated or created, no
  \<open>meta_data\<close> written).
\<close>

theorem endpoint_schema_update_not_allowed:
  assumes "endpoint_schema_update env data db = (db', Inl (NotAllowed msg))"
  shows "db' = db\<lparr>Field_objects :=
                   filter (\<lambda>r. \<not> (f_relative_endpoint_id r = su_id data
                                    \<and> f_id r \<notin> set (kept_ids (su_fields data))))
                     (Field_objects db)\<rparr>"
proof (cases "objects_get (\<lambda>r. re_id r = su_id data) (RelativeEndpoint_objects db)")
  case (Inl e)
  with assms objects_get_Inl [OF Inl] show ?thesis
    by (auto simp: endpoint_schema_update_def)
next
  case (Inr endpoint)
  then have "filter (\<lambda>r. re_id r = su_id data) (RelativeEndpoint_objects db) = [endpoint]"
    by (simp add: objects_get_Inr)
  from filter_single_mem [OF this] have eid: "re_id endpoint = su_id data" by simp
  let ?db1 = "delete_fields_excluding (su_id data) (kept_ids (su_fields data)) db"
  show ?thesis
  proof (cases "select_fields env (map s_name (Schema_objects ?db1))
                  (url_params env (re_endpoint endpoint)) (su_fields data) [] []")
    case (Inl e)
    with assms Inr eid show ?thesis
      by (simp add: endpoint_schema_update_def Let_def delete_fields_excluding_def)
  next
    case sel: (Inr ab)
    obtain a b where ab: "ab = (a, b)" by (cases ab)
    obtain rows res where upd: "update_fields a (Field_objects ?db1) = (rows, res)"
      by (cases "update_fields a (Field_objects ?db1)")
    show ?thesis
    proof (cases res)
      case (Inl e)
      with upd have "e = KeyError ''id''" by (simp add: update_fields_Inl)
      with assms Inr eid sel ab upd Inl show ?thesis
        by (simp add: endpoint_schema_update_def Let_def)
    next
      case (Inr u)
      with assms \<open>objects_get _ _ = Inr endpoint\<close> eid sel ab upd show ?thesis
        by (simp add: endpoint_schema_update_def Let_def)
    qed
  qed
qed

theorem endpoint_schema_update_not_allowed_witness:
  "endpoint_schema_update spec_env
     \<lparr>su_id = 1,
      su_fields = [\<lparr>fe_id = Some 1, fe_key = ''name'', fe_type = ''VALUE'', fe_value = ''float'',
                    fe_is_array = False, fe_isChanged = Some (PyBool True)\<rparr>],
      su_meta_data = ''{\"a\": 1}''\<rparr> ex_db
   = (ex_db\<lparr>Field_objects :=
              [\<lparr>f_id = 1, f_relative_endpoint_id = 1, f_key = ''name'', f_type = ''VALUE'',
                f_value = ''string'', f_is_array = False\<rparr>,
               \<lparr>f_id = 2, f_relative_endpoint_id = 2, f_key = ''title'', f_type = ''VALUE'',
                f_value = ''string'', f_is_array = False\<rparr>]\<rparr>,
      Inl (NotAllowed
        ''Please enter valid data type for 'name', i.e. one of string, integer, boolean''))"
proof -
  let ?data = "\<lparr>su_id = 1,
      su_fields = [\<lparr>fe_id = Some 1, fe_key = ''name'', fe_type = ''VALUE'', fe_value = ''float'',
                    fe_is_array = False, fe_isChanged = Some (PyBool True)\<rparr>],
      su_meta_data = ''{\"a\": 1}''\<rparr>"
  let ?msg = "''Please enter valid data type for 'name', i.e. one of string, integer, boolean''"
  have out: "snd (endpoint_schema_update spec_env ?data ex_db) = Inl (NotAllowed ?msg)"
    by (simp add: endpoint_schema_update_def objects_get_def ex_db_def spec_env_def
        validate_field_def Let_def delete_fields_excluding_def kept_ids_def)
  then have "endpoint_schema_update spec_env ?data ex_db =
      (fst (endpoint_schema_update spec_env ?data ex_db), Inl (NotAllowed ?msg))"
    by (metis prod.collapse)
  from endpoint_schema_update_not_allowed [OF this] out show ?thesis
    by (simp add: prod_eq_iff kept_ids_def ex_db_def)
qed

text \<open>
  Claim C1. When the call succeeds, the field table consists of the rows that survived
  the deletion, each changed by the entries whose \<open>isChanged\<close> is truthy (an entry
  rewrites key, value, type and is_array of the row with its id), followed by one fresh
  row of the endpoint for every entry whose \<open>isChanged\<close> is falsy. Entries without the
  key \<open>isChanged\<close> play no part: two requests whose selected entries and kept ids agree
  have the same outcome and leave the same database, whatever the other entries hold.
\<close>

theorem endpoint_schema_update_classifies:
  "(endpoint_schema_update env data db = (db', Inr endpoint') \<longrightarrow>
      Field_objects db' =
        map (\<lambda>r. fold apply_entry (filter entry_is_update (su_fields data)) r)
          (Field_objects (delete_fields_excluding (su_id data) (kept_ids (su_fields data)) db))
        @ save_fields (f_seq db)
            (map (new_field (su_id data)) (filter entry_is_new (su_fields data))))
   \<and> (kept_ids fs' = kept_ids (su_fields data)
        \<and> filter entry_selected fs' = filter entry_selected (su_fields data) \<longrightarrow>
      endpoint_schema_update env (data\<lparr>su_fields := fs'\<rparr>) db =
      endpoint_schema_update env data db)"
proof (intro conjI impI)
  assume ok: "endpoint_schema_update env data db = (db', Inr endpoint')"
  let ?db1 = "delete_fields_excluding (su_id data) (kept_ids (su_fields data)) db"
  show "Field_objects db' =
        map (\<lambda>r. fold apply_entry (filter entry_is_update (su_fields data)) r) (Field_objects ?db1)
        @ save_fields (f_seq db)
            (map (new_field (su_id data)) (filter entry_is_new (su_fields data)))"
  proof (cases "objects_get (\<lambda>r. re_id r = su_id data) (RelativeEndpoint_objects db)")
    case (Inl e)
    with ok show ?thesis by (simp add: endpoint_schema_update_def)
  next
    case (Inr endpoint)
    then have "filter (\<lambda>r. re_id r = su_id data) (RelativeEndpoint_objects db) = [endpoint]"
      by (simp add: objects_get_Inr)
    from filter_single_mem [OF this] have eid: "re_id endpoint = su_id data" by simp
    show ?thesis
    proof (cases "select_fields env (map s_name (Schema_objects ?db1))
                    (url_params env (re_endpoint endpoint)) (su_fields data) [] []")
      case (Inl e)
      with ok Inr eid show ?thesis by (simp add: endpoint_schema_update_def Let_def)
    next
      case sel: (Inr ab)
      obtain a b where ab: "ab = (a, b)" by (cases ab)
      from select_fields_Inr [OF sel [unfolded ab]]
      have a: "a = filter entry_is_update (su_fields data)"
        and b: "b = filter entry_is_new (su_fields data)" by simp_all
      obtain rows res where upd: "update_fields a (Field_objects ?db1) = (rows, res)"
        by (cases "update_fields a (Field_objects ?db1)")
      show ?thesis
      proof (cases res)
        case (Inl e)
        with ok Inr eid sel ab upd show ?thesis
          by (simp add: endpoint_schema_update_def Let_def)
      next
        case res: (Inr u)
        from update_fields_Inr [OF upd [unfolded res]]
        have rows: "rows = map (\<lambda>r. fold apply_entry a r) (Field_objects ?db1)" .
        have seq: "f_seq ?db1 = f_seq db" by (simp add: delete_fields_excluding_def)
        from ok Inr eid sel ab upd res
        have "db' = RelativeEndpoint_save (endpoint\<lparr>re_meta_data := su_meta_data data\<rparr>)
                      (Field_bulk_create (map (new_field (su_id data)) b)
                         (?db1\<lparr>Field_objects := rows\<rparr>))"
          by (auto simp: endpoint_schema_update_def Let_def)
        then have "Field_objects db' = rows @ save_fields (f_seq db) (map (new_field (su_id data)) b)"
          by (simp add: RelativeEndpoint_save_def Field_bulk_create_def seq)
        with rows a b show ?thesis by simp
      qed
    qed
  qed
next
  assume "kept_ids fs' = kept_ids (su_fields data)
          \<and> filter entry_selected fs' = filter entry_selected (su_fields data)"
  then have k: "kept_ids fs' = kept_ids (su_fields data)"
    and f: "filter entry_selected fs' = filter entry_selected (su_fields data)" by simp_all
  have "select_fields env s p fs' [] [] = select_fields env s p (su_fields data) [] []" for s p
    using select_fields_filter [of env s p fs' "[]" "[]"]
          select_fields_filter [of env s p "su_fields data" "[]" "[]"] f
    by simp
  then show "endpoint_schema_update env (data\<lparr>su_fields := fs'\<rparr>) db =
             endpoint_schema_update env data db"
    by (simp add: endpoint_schema_update_def k Let_def
          cong: sum.case_cong prod.case_cong)
qed

theorem endpoint_schema_update_classifies_witness:
  "Field_objects (fst (endpoint_schema_update spec_env ex_request ex_db)) =
     [\<lparr>f_id = 1, f_relative_endpoint_id = 1, f_key = ''name'', f_type = ''VALUE'',
       f_value = ''string'', f_is_array = False\<rparr>,
      \<lparr>f_id = 2, f_relative_endpoint_id = 2, f_key = ''title'', f_type = ''VALUE'',
       f_value = ''string'', f_is_array = False\<rparr>,
      \<lparr>f_id = 3, f_relative_endpoint_id = 1, f_key = ''user_id'', f_type = ''URL_PARAM'',
       f_value = ''id'', f_is_array = True\<rparr>,
      \<lparr>f_id = 4, f_relative_endpoint_id = 1, f_key = ''q'', f_type = ''QUERY_PARAM'',
       f_value = ''search'', f_is_array = False\<rparr>]
   \<and> snd (endpoint_schema_update spec_env ex_request ex_db) =
       Inr \<lparr>re_id = 1, re_base_endpoint_id = 1, re_endpoint = ''/users/{id}'',
            re_method = ''GET'', re_regex_endpoint = ''^/users/([^/]+)$'', re_meta_data = ''{}''\<rparr>
   \<and> endpoint_schema_update spec_env (ex_request\<lparr>su_fields := ex_entries'\<rparr>) ex_db =
       endpoint_schema_update spec_env ex_request ex_db"
proof -
  let ?ep = "\<lparr>re_id = 1, re_base_endpoint_id = 1, re_endpoint = ''/users/{id}'',
            re_method = ''GET'', re_regex_endpoint = ''^/users/([^/]+)$'', re_meta_data = ''{}''\<rparr>"
  have out: "snd (endpoint_schema_update spec_env ex_request ex_db) = Inr ?ep"
    by (simp add: endpoint_schema_update_def objects_get_def ex_db_def spec_env_def
        ex_request_def ex_entries_def validate_field_def spec_url_params_def Let_def
        delete_fields_excluding_def kept_ids_def update_field_def)
  then have ok: "endpoint_schema_update spec_env ex_request ex_db =
      (fst (endpoint_schema_update spec_env ex_request ex_db), Inr ?ep)"
    by (metis prod.collapse)
  have k: "kept_ids ex_entries' = kept_ids (su_fields ex_request)
          \<and> filter entry_selected ex_entries' = filter entry_selected (su_fields ex_request)"
    by (simp add: kept_ids_def ex_entries'_def ex_entries_def ex_request_def entry_selected_def)
  note inst = endpoint_schema_update_classifies
    [of spec_env ex_request ex_db "fst (endpoint_schema_update spec_env ex_request ex_db)" ?ep
        ex_entries']
  from inst ok have "Field_objects (fst (endpoint_schema_update spec_env ex_request ex_db)) =
        map (\<lambda>r. fold apply_entry (filter entry_is_update (su_fields ex_request)) r)
          (Field_objects (delete_fields_excluding (su_id ex_request)
             (kept_ids (su_fields ex_request)) ex_db))
        @ save_fields (f_seq ex_db)
            (map (new_field (su_id ex_request)) (filter entry_is_new (su_fields ex_request)))"
    by blast
  moreover from inst k
  have "endpoint_schema_update spec_env (ex_request\<lparr>su_fields := ex_entries'\<rparr>) ex_db =
        endpoint_schema_update spec_env ex_request ex_db"
    by blast
  ultimately show ?thesis using out
    by (simp add: ex_request_def ex_entries_def ex_db_def delete_fields_excluding_def
        kept_ids_def entry_is_update_def entry_is_new_def apply_entry_def new_field_def)
qed

text \<open>
  Claim C6. A selected entry whose type is none of the four field types makes the call
  fail as soon as the loop reaches it, that is when the selected entries before it pass
  their checks: the failure is not-allowed and its message lists SCHEMA, VALUE and
  URL_PARAM, and nothing else.
\<close>

theorem endpoint_schema_update_unknown_type:
  assumes "filter (\<lambda>r. re_id r = su_id data) (RelativeEndpoint_objects db) = [endpoint]"
      and "su_fields data = pre @ field # post"
      and "\<forall>f\<in>set pre. entry_selected f \<longrightarrow>
             validate_field env (map s_name (Schema_objects db))
               (url_params env (re_endpoint endpoint)) f = Inr ()"
      and "entry_selected field"
      and "fe_type field \<notin> {SCHEMA env, VALUE env, URL_PARAM env, QUERY_PARAM env}"
  shows "snd (endpoint_schema_update env data db) =
           Inl (NotAllowed (''The field type should be one of '' @ SCHEMA env @ '', ''
                            @ VALUE env @ '', '' @ URL_PARAM env))"
proof -
  let ?s = "map s_name (Schema_objects db)"
  let ?p = "url_params env (re_endpoint endpoint)"
  let ?msg = "''The field type should be one of '' @ SCHEMA env @ '', '' @ VALUE env
              @ '', '' @ URL_PARAM env"
  from assms(4) obtain c where c: "fe_isChanged field = Some c"
    by (auto simp: entry_selected_def)
  from assms(5) have v: "validate_field env ?s ?p field = Inl (NotAllowed ?msg)"
    by (simp add: validate_field_def)
  have "select_fields env ?s ?p (su_fields data) [] [] =
        select_fields env ?s ?p (field # post)
          ([] @ filter entry_is_update pre) ([] @ filter entry_is_new pre)"
    unfolding assms(2) using assms(3) by (rule select_fields_valid_prefix)
  also have "\<dots> = Inl (NotAllowed ?msg)"
    using c v by simp
  finally have sel: "select_fields env ?s ?p (su_fields data) [] [] = Inl (NotAllowed ?msg)" .
  have get: "objects_get (\<lambda>r. re_id r = su_id data) (RelativeEndpoint_objects db) = Inr endpoint"
    using assms(1) by (simp add: objects_get_Inr)
  show ?thesis
    using get sel by (simp add: endpoint_schema_update_def Let_def delete_fields_excluding_def)
qed

theorem endpoint_schema_update_unknown_type_witness:
  "snd (endpoint_schema_update spec_env
     \<lparr>su_id = 1,
      su_fields =
        [\<lparr>fe_id = Some 1, fe_key = ''name'', fe_type = ''VALUE'', fe_value = ''string'',
          fe_is_array = False, fe_isChanged = Some (PyBool True)\<rparr>,
         \<lparr>fe_id = None, fe_key = ''h'', fe_type = ''HEADER'', fe_value = ''x'',
          fe_is_array = False, fe_isChanged = Some (PyBool False)\<rparr>],
      su_meta_data = ''{}''\<rparr> ex_db)
   = Inl (NotAllowed ''The field type should be one of SCHEMA, VALUE, URL_PARAM'')"
  using endpoint_schema_update_unknown_type
    [of "\<lparr>su_id = 1,
      su_fields =
        [\<lparr>fe_id = Some 1, fe_key = ''name'', fe_type = ''VALUE'', fe_value = ''string'',
          fe_is_array = False, fe_isChanged = Some (PyBool True)\<rparr>,
         \<lparr>fe_id = None, fe_key = ''h'', fe_type = ''HEADER'', fe_value = ''x'',
          fe_is_array = False, fe_isChanged = Some (PyBool False)\<rparr>],
      su_meta_data = ''{}''\<rparr>" ex_db
        "\<lparr>re_id = 1, re_base_endpoint_id = 1, re_endpoint = ''/users/{id}'',
          re_method = ''GET'', re_regex_endpoint = ''^/users/([^/]+)$'', re_meta_data = ''{}''\<rparr>"
        "[\<lparr>fe_id = Some 1, fe_key = ''name'', fe_type = ''VALUE'', fe_value = ''string'',
          fe_is_array = False, fe_isChanged = Some (PyBool True)\<rparr>]"
        "\<lparr>fe_id = None, fe_key = ''h'', fe_type = ''HEADER'', fe_value = ''x'',
          fe_is_array = False, fe_isChanged = Some (PyBool False)\<rparr>"
        "[]" spec_env]
  by (simp add: ex_db_def spec_env_def validate_field_def entry_selected_def)

text \<open>
  Claim C3. Once the endpoint is found, a field row of the endpoint whose id is not among
  the positive ids of the incoming entries is gone from the table, whatever the outcome
  of the call: the deletion runs before the entries are checked, so it has happened
  also when a check fails. (Ids are not handed out twice: the rows of the table have
  ids up to the table's counter.)
\<close>

theorem endpoint_schema_update_deletes_first:
  assumes "filter (\<lambda>r. re_id r = su_id data) (RelativeEndpoint_objects db) = [endpoint]"
      and "\<forall>r'\<in>set (Field_objects db). f_id r' \<le> f_seq db"
      and "r \<in> set (Field_objects db)"
      and "f_relative_endpoint_id r = su_id data"
      and "f_id r \<notin> set (kept_ids (su_fields data))"
  shows "\<forall>r'\<in>set (Field_objects (fst (endpoint_schema_update env data db))).
           \<not> (f_relative_endpoint_id r' = su_id data \<and> f_id r' = f_id r)"
proof -
  let ?db1 = "delete_fields_excluding (su_id data) (kept_ids (su_fields data)) db"
  have get: "objects_get (\<lambda>r. re_id r = su_id data) (RelativeEndpoint_objects db) = Inr endpoint"
    using assms(1) by (simp add: objects_get_Inr)
  from filter_single_mem [OF assms(1)] have eid: "re_id endpoint = su_id data" by simp
  have gone: "\<not> (f_relative_endpoint_id r' = su_id data \<and> f_id r' = f_id r)"
    if "r' \<in> set (Field_objects ?db1)" for r'
    using that assms(5) by (auto simp: delete_fields_excluding_def)
  have kept: "\<not> (f_relative_endpoint_id r' = su_id data \<and> f_id r' = f_id r)"
    if "update_fields es (Field_objects ?db1) = (rows, res)" and "r' \<in> set rows"
    for es rows res r'
    using update_fields_origin [OF that] gone by metis
  have fresh: "f_id r' \<noteq> f_id r" if "r' \<in> set (save_fields (f_seq db) objs)" for r' objs
    using save_fields_ids [OF that] assms(2,3) by force
  show ?thesis
  proof (cases "select_fields env (map s_name (Schema_objects ?db1))
                  (url_params env (re_endpoint endpoint)) (su_fields data) [] []")
    case (Inl e)
    with get eid gone show ?thesis
      by (simp add: endpoint_schema_update_def Let_def)
  next
    case sel: (Inr ab)
    obtain a b where ab: "ab = (a, b)" by (cases ab)
    obtain rows res where upd: "update_fields a (Field_objects ?db1) = (rows, res)"
      by (cases "update_fields a (Field_objects ?db1)")
    show ?thesis
    proof (cases res)
      case (Inl e)
      with get eid sel ab upd kept [OF upd] show ?thesis
        by (simp add: endpoint_schema_update_def Let_def)
    next
      case (Inr u)
      have seq: "f_seq ?db1 = f_seq db" by (simp add: delete_fields_excluding_def)
      from get eid sel ab upd Inr
      have "Field_objects (fst (endpoint_schema_update env data db)) =
              rows @ save_fields (f_seq db) (map (new_field (su_id data)) b)"
        by (simp add: endpoint_schema_update_def Let_def RelativeEndpoint_save_def
            Field_bulk_create_def seq)
      with kept [OF upd] fresh show ?thesis by auto
    qed
  qed
qed

theorem endpoint_schema_update_deletes_first_witness:
  "map f_id (Field_objects (fst (endpoint_schema_update spec_env
     \<lparr>su_id = 1,
      su_fields = [\<lparr>fe_id = Some 1, fe_key = ''name'', fe_type = ''VALUE'', fe_value = ''float'',
                    fe_is_array = False, fe_isChanged = Some (PyBool True)\<rparr>],
      su_meta_data = ''{}''\<rparr> ex_db))) = [1, 2]
   \<and> list_all (\<lambda>r'. \<not> (f_relative_endpoint_id r' = 1 \<and> f_id r' = 3))
       (Field_objects (fst (endpoint_schema_update spec_env
         \<lparr>su_id = 1,
          su_fields = [\<lparr>fe_id = Some 1, fe_key = ''name'', fe_type = ''VALUE'',
                        fe_value = ''float'', fe_is_array = False,
                        fe_isChanged = Some (PyBool True)\<rparr>],
          su_meta_data = ''{}''\<rparr> ex_db)))"
proof -
  let ?data = "\<lparr>su_id = 1,
      su_fields = [\<lparr>fe_id = Some 1, fe_key = ''name'', fe_type = ''VALUE'', fe_value = ''float'',
                    fe_is_array = False, fe_isChanged = Some (PyBool True)\<rparr>],
      su_meta_data = ''{}''\<rparr>"
  have "\<forall>r'\<in>set (Field_objects (fst (endpoint_schema_update spec_env ?data ex_db))).
           \<not> (f_relative_endpoint_id r' = su_id ?data
               \<and> f_id r' = f_id \<lparr>f_id = 3, f_relative_endpoint_id = 1, f_key = ''uid'',
                                  f_type = ''URL_PARAM'', f_value = ''id'', f_is_array = False\<rparr>)"
    by (rule endpoint_schema_update_deletes_first
          [where endpoint = "\<lparr>re_id = 1, re_base_endpoint_id = 1, re_endpoint = ''/users/{id}'',
             re_method = ''GET'', re_regex_endpoint = ''^/users/([^/]+)$'',
             re_meta_data = ''{}''\<rparr>"])
       (simp_all add: ex_db_def kept_ids_def)
  then have "list_all (\<lambda>r'. \<not> (f_relative_endpoint_id r' = 1 \<and> f_id r' = 3))
       (Field_objects (fst (endpoint_schema_update spec_env ?data ex_db)))"
    by (simp add: list_all_iff)
  moreover have "map f_id (Field_objects (fst (endpoint_schema_update spec_env ?data ex_db)))
      = [1, 2]"
    by (simp add: endpoint_schema_update_def objects_get_def ex_db_def spec_env_def
        validate_field_def Let_def delete_fields_excluding_def kept_ids_def)
  ultimately show ?thesis by simp
qed

section \<open>schema_add\<close>

lemma objects_get_one:
  "length (filter p rows) = 1 \<Longrightarrow> objects_get p rows = Inr (hd (filter p rows))"
  by (cases "filter p rows") (auto simp: objects_get_def split: list.splits)

lemma objects_get_not_one:
  "length (filter p rows) \<noteq> 1 \<Longrightarrow> \<exists>e. objects_get p rows = Inl e"
  by (auto simp: objects_get_def split: list.splits)

text \<open>The loop succeeds exactly when every field resolves, and then keeps their order.\<close>

lemma schema_add_fields_resolved:
  "list_all (field_resolves env db) fs \<Longrightarrow>
     schema_add_fields env db schema fs acc =
       Inr (acc @ map (\<lambda>f. \<lparr>sdo_schema_id = s_id schema, sdo_key = sf_key f,
                              sdo_type = sf_type f,
                              sdo_value =
                                (if sf_type f = ''schema''
                                 then s_id (hd (filter (\<lambda>s. s_name s = sf_value f)
                                                  (Schema_objects db)))
                                 else index_of (sf_value f) (CHOICES env))\<rparr>) fs)"
proof (induction fs arbitrary: acc)
  case Nil
  then show ?case by simp
next
  case (Cons f fs)
  then have rest: "list_all (field_resolves env db) fs" and f: "field_resolves env db f"
    by simp_all
  show ?case
  proof (cases "sf_type f = ''schema''")
    case True
    with f have "length (filter (\<lambda>s. s_name s = sf_value f) (Schema_objects db)) = 1"
      by (simp add: field_resolves_def)
    from objects_get_one [OF this] True Cons.IH [OF rest] show ?thesis by simp
  next
    case False
    with f have "sf_value f \<in> set (CHOICES env)" by (simp add: field_resolves_def)
    with False Cons.IH [OF rest] show ?thesis by simp
  qed
qed

lemma schema_add_fields_unresolved:
  "\<not> list_all (field_resolves env db) fs \<Longrightarrow>
     \<exists>e. schema_add_fields env db schema fs acc = Inl e"
proof (induction fs arbitrary: acc)
  case Nil
  then show ?case by simp
next
  case (Cons f fs)
  show ?case
  proof (cases "field_resolves env db f")
    case True
    with Cons.prems have "\<not> list_all (field_resolves env db) fs" by simp
    from Cons.IH [OF this] show ?thesis
      by (auto split: sum.splits)
  next
    case False
    show ?thesis
    proof (cases "sf_type f = ''schema''")
      case True
      with False have "length (filter (\<lambda>s. s_name s = sf_value f) (Schema_objects db)) \<noteq> 1"
        by (simp add: field_resolves_def)
      from objects_get_not_one [OF this] True show ?thesis by auto
    next
      case nt: False
      with False show ?thesis by (simp add: field_resolves_def)
    qed
  qed
qed

lemma save_schema_datas_append:
  "save_schema_datas n (xs @ y # ys) =
     save_schema_datas n xs
     @ \<lparr>sd_id = n + int (length xs) + 1, sd_schema_id = sdo_schema_id y, sd_key = sdo_key y,
        sd_type = sdo_type y, sd_value = sdo_value y\<rparr>
     # save_schema_datas (n + int (length xs) + 1) ys"
  by (induction xs arbitrary: n) (auto simp: algebra_simps)

text \<open>
  Claim C5. For a name that is not taken: the Schema row is created first; if some field
  does not resolve (an unknown primitive type name, or type \<open>schema\<close> with a value that
  names no schema) the call fails and leaves the database with the new Schema row and no
  new SchemaData row; whenever the call fails that is the database it leaves; and when it
  succeeds every field has resolved and the SchemaData rows, one per field, have been
  appended as one batch.
\<close>

theorem schema_add_all_or_nothing:
  assumes "filter (\<lambda>s. s_name s = sa_name data) (Schema_objects db) = []"
  shows "((\<exists>f\<in>set (sa_fields data).
             \<not> field_resolves env (fst (Schema_create (sa_name data) db)) f) \<longrightarrow>
            (\<exists>e. schema_add env data db = (fst (Schema_create (sa_name data) db), Inl e)))
       \<and> (\<forall>e. snd (schema_add env data db) = Inl e \<longrightarrow>
            fst (schema_add env data db) = fst (Schema_create (sa_name data) db))
       \<and> (\<forall>d. snd (schema_add env data db) = Inr d \<longrightarrow>
            list_all (field_resolves env (fst (Schema_create (sa_name data) db)))
              (sa_fields data)
            \<and> (\<exists>objs. length objs = length (sa_fields data)
                  \<and> fst (schema_add env data db) =
                      SchemaData_bulk_create objs (fst (Schema_create (sa_name data) db))))"
proof -
  obtain db1 schema where cr: "Schema_create (sa_name data) db = (db1, schema)"
    by (cases "Schema_create (sa_name data) db")
  show ?thesis
  proof (cases "list_all (field_resolves env db1) (sa_fields data)")
    case True
    from schema_add_fields_resolved [OF True, of schema "[]"]
    obtain objs where objs: "schema_add_fields env db1 schema (sa_fields data) [] = Inr objs"
      and len: "length objs = length (sa_fields data)"
      by auto
    from assms cr objs have "schema_add env data db =
        (SchemaData_bulk_create objs db1, Inr (Schema_detail (SchemaData_bulk_create objs db1) schema))"
      by (simp add: schema_add_def Let_def)
    with True len cr show ?thesis by (auto simp: list_all_iff)
  next
    case False
    from schema_add_fields_unresolved [OF False, of schema "[]"]
    obtain e where "schema_add_fields env db1 schema (sa_fields data) [] = Inl e" by auto
    with assms cr have "schema_add env data db = (db1, Inl e)"
      by (simp add: schema_add_def)
    with False cr show ?thesis by (auto simp: list_all_iff)
  qed
qed

theorem schema_add_all_or_nothing_witness:
  "schema_add spec_env
     \<lparr>sa_name = ''Post'',
      sa_fields = [\<lparr>sf_key = ''title'', sf_type = ''value'', sf_value = ''string''\<rparr>,
                   \<lparr>sf_key = ''author'', sf_type = ''schema'', sf_value = ''Nobody''\<rparr>]\<rparr> ex_db
   = (ex_db\<lparr>Schema_objects := [\<lparr>s_id = 1, s_name = ''User''\<rparr>, \<lparr>s_id = 2, s_name = ''Post''\<rparr>],
            s_seq := 2\<rparr>, Inl DoesNotExist)"
proof -
  let ?data = "\<lparr>sa_name = ''Post'',
      sa_fields = [\<lparr>sf_key = ''title'', sf_type = ''value'', sf_value = ''string''\<rparr>,
                   \<lparr>sf_key = ''author'', sf_type = ''schema'', sf_value = ''Nobody''\<rparr>]\<rparr>"
  have free: "filter (\<lambda>s. s_name s = sa_name ?data) (Schema_objects ex_db) = []"
    by (simp add: ex_db_def)
  have out: "snd (schema_add spec_env ?data ex_db) = Inl DoesNotExist"
    by (simp add: schema_add_def Schema_create_def ex_db_def spec_env_def objects_get_def Let_def)
  from schema_add_all_or_nothing [OF free, of spec_env] out
  have "fst (schema_add spec_env ?data ex_db) = fst (Schema_create (sa_name ?data) ex_db)"
    by blast
  with out show ?thesis
    by (simp add: prod_eq_iff Schema_create_def ex_db_def Let_def)
qed

text \<open>
  Claim C9. For a name that is not taken, a field of type \<open>schema\<close> whose value is the name
  of the schema being created resolves to the id of the new Schema row: when the other
  fields resolve the call returns without an error, and the SchemaData row written for
  that field refers to the new schema both as its owner and as its value.
\<close>

theorem schema_add_self_reference:
  assumes "filter (\<lambda>s. s_name s = sa_name data) (Schema_objects db) = []"
      and "sa_fields data = pre @ field # post"
      and "sf_type field = ''schema''"
      and "sf_value field = sa_name data"
      and "\<forall>f\<in>set (pre @ post). field_resolves env (fst (Schema_create (sa_name data) db)) f"
  shows "(\<exists>d. snd (schema_add env data db) = Inr d)
       \<and> \<lparr>sd_id = sd_seq db + int (length pre) + 1, sd_schema_id = s_seq db + 1,
           sd_key = sf_key field, sd_type = ''schema'', sd_value = s_seq db + 1\<rparr>
           \<in> set (SchemaData_objects (fst (schema_add env data db)))"
proof -
  let ?schema = "\<lparr>s_id = s_seq db + 1, s_name = sa_name data\<rparr>"
  let ?db1 = "db\<lparr>Schema_objects := Schema_objects db @ [?schema], s_seq := s_seq db + 1\<rparr>"
  have cr: "Schema_create (sa_name data) db = (?db1, ?schema)"
    by (simp add: Schema_create_def Let_def)
  have own: "filter (\<lambda>s. s_name s = sf_value field) (Schema_objects ?db1) = [?schema]"
    using assms(1,4) by simp
  then have "field_resolves env ?db1 field"
    using assms(3) by (simp add: field_resolves_def)
  with assms(2,5) cr have all: "list_all (field_resolves env ?db1) (sa_fields data)"
    by (auto simp: list_all_iff)
  let ?g = "\<lambda>f. \<lparr>sdo_schema_id = s_id ?schema, sdo_key = sf_key f, sdo_type = sf_type f,
                  sdo_value =
                    (if sf_type f = ''schema''
                     then s_id (hd (filter (\<lambda>s. s_name s = sf_value f) (Schema_objects ?db1)))
                     else index_of (sf_value f) (CHOICES env))\<rparr>"
  from schema_add_fields_resolved [OF all, of ?schema "[]"]
  have loop: "schema_add_fields env ?db1 ?schema (sa_fields data) [] = Inr (map ?g (sa_fields data))"
    by simp
  let ?db2 = "SchemaData_bulk_create (map ?g (sa_fields data)) ?db1"
  from assms(1) cr loop
  have res: "schema_add env data db = (?db2, Inr (Schema_detail ?db2 ?schema))"
    by (simp add: schema_add_def Let_def)
  have g: "?g field = \<lparr>sdo_schema_id = s_seq db + 1, sdo_key = sf_key field,
                      sdo_type = ''schema'', sdo_value = s_seq db + 1\<rparr>"
    using own assms(3) by simp
  have "SchemaData_objects ?db2 =
          SchemaData_objects db @ save_schema_datas (sd_seq db) (map ?g pre @ ?g field # map ?g post)"
    by (simp add: SchemaData_bulk_create_def assms(2))
  then have "\<lparr>sd_id = sd_seq db + int (length pre) + 1, sd_schema_id = s_seq db + 1,
           sd_key = sf_key field, sd_type = ''schema'', sd_value = s_seq db + 1\<rparr>
           \<in> set (SchemaData_objects ?db2)"
    by (simp only: save_schema_datas_append g set_append set_simps length_map
        schema_data_obj.simps) simp
  with res show ?thesis by simp
qed

theorem schema_add_self_reference_witness:
  "schema_add spec_env
     \<lparr>sa_name = ''Node'',
      sa_fields = [\<lparr>sf_key = ''label'', sf_type = ''value'', sf_value = ''string''\<rparr>,
                   \<lparr>sf_key = ''next'', sf_type = ''schema'', sf_value = ''Node''\<rparr>]\<rparr> ex_db
   = (ex_db\<lparr>Schema_objects := [\<lparr>s_id = 1, s_name = ''User''\<rparr>, \<lparr>s_id = 2, s_name = ''Node''\<rparr>],
            s_seq := 2,
            SchemaData_objects :=
              [\<lparr>sd_id = 1, sd_schema_id = 1, sd_key = ''name'', sd_type = ''value'', sd_value = 0\<rparr>,
               \<lparr>sd_id = 2, sd_schema_id = 2, sd_key = ''label'', sd_type = ''value'', sd_value = 0\<rparr>,
               \<lparr>sd_id = 3, sd_schema_id = 2, sd_key = ''next'', sd_type = ''schema'', sd_value = 2\<rparr>],
            sd_seq := 3\<rparr>,
      Inr \<lparr>sc_id = 2, sc_name = ''Node'',
           sc_schema =
             [\<lparr>sdd_id = 2, sdd_schema = 2, sdd_key = ''label'', sdd_type = ''value'', sdd_value = 0\<rparr>,
              \<lparr>sdd_id = 3, sdd_schema = 2, sdd_key = ''next'', sdd_type = ''schema'',
               sdd_value = 2\<rparr>]\<rparr>)
   \<and> \<lparr>sd_id = 3, sd_schema_id = 2, sd_key = ''next'', sd_type = ''schema'', sd_value = 2\<rparr>
       \<in> set (SchemaData_objects (fst (schema_add spec_env
           \<lparr>sa_name = ''Node'',
            sa_fields = [\<lparr>sf_key = ''label'', sf_type = ''value'', sf_value = ''string''\<rparr>,
                         \<lparr>sf_key = ''next'', sf_type = ''schema'', sf_value = ''Node''\<rparr>]\<rparr>
           ex_db)))"
proof -
  let ?data = "\<lparr>sa_name = ''Node'',
      sa_fields = [\<lparr>sf_key = ''label'', sf_type = ''value'', sf_value = ''string''\<rparr>,
                   \<lparr>sf_key = ''next'', sf_type = ''schema'', sf_value = ''Node''\<rparr>]\<rparr>"
  have "(\<exists>d. snd (schema_add spec_env ?data ex_db) = Inr d)
       \<and> \<lparr>sd_id = sd_seq ex_db + int (length [\<lparr>sf_key = ''label'', sf_type = ''value'',
                                                sf_value = ''string''\<rparr>]) + 1,
           sd_schema_id = s_seq ex_db + 1,
           sd_key = sf_key \<lparr>sf_key = ''next'', sf_type = ''schema'', sf_value = ''Node''\<rparr>,
           sd_type = ''schema'', sd_value = s_seq ex_db + 1\<rparr>
           \<in> set (SchemaData_objects (fst (schema_add spec_env ?data ex_db)))"
    by (rule schema_add_self_reference [where post = "[]"])
       (simp_all add: ex_db_def Schema_create_def field_resolves_def spec_env_def Let_def)
  then have "\<lparr>sd_id = 3, sd_schema_id = 2, sd_key = ''next'', sd_type = ''schema'', sd_value = 2\<rparr>
       \<in> set (SchemaData_objects (fst (schema_add spec_env ?data ex_db)))"
    by (simp add: ex_db_def)
  moreover have "schema_add spec_env ?data ex_db
   = (ex_db\<lparr>Schema_objects := [\<lparr>s_id = 1, s_name = ''User''\<rparr>, \<lparr>s_id = 2, s_name = ''Node''\<rparr>],
            s_seq := 2,
            SchemaData_objects :=
              [\<lparr>sd_id = 1, sd_schema_id = 1, sd_key = ''name'', sd_type = ''value'', sd_value = 0\<rparr>,
               \<lparr>sd_id = 2, sd_schema_id = 2, sd_key = ''label'', sd_type = ''value'', sd_value = 0\<rparr>,
               \<lparr>sd_id = 3, sd_schema_id = 2, sd_key = ''next'', sd_type = ''schema'', sd_value = 2\<rparr>],
            sd_seq := 3\<rparr>,
      Inr \<lparr>sc_id = 2, sc_name = ''Node'',
           sc_schema =
             [\<lparr>sdd_id = 2, sdd_schema = 2, sdd_key = ''label'', sdd_type = ''value'', sdd_value = 0\<rparr>,
              \<lparr>sdd_id = 3, sdd_schema = 2, sdd_key = ''next'', sdd_type = ''schema'',
               sdd_value = 2\<rparr>]\<rparr>)"
    by (simp add: schema_add_def Schema_create_def ex_db_def spec_env_def objects_get_def Let_def
        SchemaData_bulk_create_def Schema_detail_def SchemaData_detail_def)
  ultimately show ?thesis by simp
qed

section \<open>base_endpoint_add\<close>

lemma distinct_map_filter_le1:
  "distinct (map f xs) \<Longrightarrow> length (filter (\<lambda>x. f x = v) xs) \<le> 1"
proof (induction xs)
  case Nil
  then show ?case by simp
next
  case (Cons x xs)
  show ?case
  proof (cases "f x = v")
    case True
    with Cons.prems have "filter (\<lambda>y. f y = v) xs = []"
      by (auto simp: filter_empty_conv image_iff)
    with True show ?thesis by simp
  next
    case False
    with Cons show ?thesis by simp
  qed
qed

lemma BaseEndpoint_get_or_create_twice:
  assumes "distinct (map be_endpoint (BaseEndpoint_objects db))"
  shows "\<exists>r c. snd (BaseEndpoint_get_or_create e db) = Inr (r, c)
           \<and> BaseEndpoint_get_or_create e (fst (BaseEndpoint_get_or_create e db)) =
               (fst (BaseEndpoint_get_or_create e db), Inr (r, False))"
proof (cases "filter (\<lambda>r. be_endpoint r = e) (BaseEndpoint_objects db)")
  case Nil
  then show ?thesis by (auto simp: BaseEndpoint_get_or_create_def Let_def)
next
  case (Cons r rs)
  from distinct_map_filter_le1 [OF assms, of e] Cons have "rs = []" by simp
  with Cons show ?thesis by (auto simp: BaseEndpoint_get_or_create_def)
qed

text \<open>
  Claim C8. In a database whose base endpoints have distinct endpoint strings, a call
  returns a row and raises nothing, and the same call repeated returns that same row
  without creating anything. For a string without a leading slash, the call with the
  slash put in front behaves as the call without it, so it returns that row as well.
\<close>

theorem base_endpoint_add_idempotent:
  assumes "distinct (map be_endpoint (BaseEndpoint_objects db))"
  shows "\<exists>r c. snd (base_endpoint_add e db) = Inr (r, c)
           \<and> base_endpoint_add e (fst (base_endpoint_add e db)) =
               (fst (base_endpoint_add e db), Inr (r, False))
           \<and> (take 1 e \<noteq> ''/'' \<longrightarrow>
                base_endpoint_add (CHR ''/'' # e) db = base_endpoint_add e db
                \<and> base_endpoint_add (CHR ''/'' # e) (fst (base_endpoint_add e db)) =
                    (fst (base_endpoint_add e db), Inr (r, False)))"
proof -
  let ?e = "case e of [] \<Rightarrow> e | c # cs \<Rightarrow> if c = CHR ''/'' then cs else e"
  from BaseEndpoint_get_or_create_twice [OF assms, of ?e]
  obtain r c where 1: "snd (base_endpoint_add e db) = Inr (r, c)"
    and 2: "base_endpoint_add e (fst (base_endpoint_add e db)) =
              (fst (base_endpoint_add e db), Inr (r, False))"
    unfolding base_endpoint_add_def by blast
  have 3: "base_endpoint_add (CHR ''/'' # e) d = base_endpoint_add e d" if "take 1 e \<noteq> ''/''" for d
    using that by (cases e) (auto simp: base_endpoint_add_def)
  from 1 2 3 show ?thesis by auto
qed

theorem base_endpoint_add_idempotent_witness:
  "base_endpoint_add ''v1'' ex_db =
     (ex_db\<lparr>BaseEndpoint_objects :=
              [\<lparr>be_id = 1, be_endpoint = ''api''\<rparr>, \<lparr>be_id = 2, be_endpoint = ''v1''\<rparr>],
            be_seq := 2\<rparr>,
      Inr (\<lparr>be_id = 2, be_endpoint = ''v1''\<rparr>, True))
   \<and> base_endpoint_add ''v1'' (fst (base_endpoint_add ''v1'' ex_db)) =
       (fst (base_endpoint_add ''v1'' ex_db), Inr (\<lparr>be_id = 2, be_endpoint = ''v1''\<rparr>, False))
   \<and> base_endpoint_add ''/v1'' ex_db = base_endpoint_add ''v1'' ex_db
   \<and> base_endpoint_add ''/v1'' (fst (base_endpoint_add ''v1'' ex_db)) =
       (fst (base_endpoint_add ''v1'' ex_db), Inr (\<lparr>be_id = 2, be_endpoint = ''v1''\<rparr>, False))"
proof -
  have d: "distinct (map be_endpoint (BaseEndpoint_objects ex_db))"
    by (simp add: ex_db_def)
  have first: "base_endpoint_add ''v1'' ex_db =
     (ex_db\<lparr>BaseEndpoint_objects :=
              [\<lparr>be_id = 1, be_endpoint = ''api''\<rparr>, \<lparr>be_id = 2, be_endpoint = ''v1''\<rparr>],
            be_seq := 2\<rparr>,
      Inr (\<lparr>be_id = 2, be_endpoint = ''v1''\<rparr>, True))"
    by (simp add: base_endpoint_add_def BaseEndpoint_get_or_create_def ex_db_def Let_def)
  from base_endpoint_add_idempotent [OF d, of "''v1''"] first show ?thesis
    by auto
qed

section \<open>relative_endpoint_update\<close>

text \<open>
  Claim C4, as the code has it. For an id that names one row and a path that the
  formatter accepts, the update is rejected with the not-allowed failure exactly when
  some row already carries the new (base_endpoint, path, method) triple, be it another
  row or the row being updated itself; otherwise endpoint, method and regex_endpoint of
  that row are rewritten in place and nothing else in the database changes, the fields
  included.
\<close>

theorem relative_endpoint_update_collision:
  assumes "filter (\<lambda>r. re_id r = ed_id data) (RelativeEndpoint_objects db) = [row]"
      and "format_and_regex_endpoint env (ed_endpoint data) = Inr (endpoint, regex_endpoint)"
  shows "relative_endpoint_update env data db =
     (if collides_with_other db (ed_id data) (re_base_endpoint_id row) endpoint (ed_method data)
         \<or> (re_endpoint row = endpoint \<and> re_method row = ed_method data)
      then (db, Inl (NotAllowed ''Endpoint with same url exists''))
      else (db\<lparr>RelativeEndpoint_objects :=
                 map (\<lambda>r. if re_id r = ed_id data
                           then r\<lparr>re_endpoint := endpoint, re_method := ed_method data,
                                  re_regex_endpoint := regex_endpoint\<rparr>
                           else r)
                   (RelativeEndpoint_objects db)\<rparr>, Inr ()))"
proof -
  let ?hit = "\<lambda>r. re_base_endpoint_id r = re_base_endpoint_id row \<and> re_endpoint r = endpoint
                  \<and> re_method r = ed_method data"
  have get: "objects_get (\<lambda>r. re_id r = ed_id data) (RelativeEndpoint_objects db) = Inr row"
    using assms(1) by (simp add: objects_get_Inr)
  from filter_single_mem [OF assms(1)]
  have mem: "row \<in> set (RelativeEndpoint_objects db)" and rid: "re_id row = ed_id data"
    by simp_all
  have uniq: "r = row" if "r \<in> set (RelativeEndpoint_objects db)" "re_id r = ed_id data" for r
    using filter_single_uniq [OF assms(1)] that by simp
  have "(filter ?hit (RelativeEndpoint_objects db) \<noteq> []) =
        (collides_with_other db (ed_id data) (re_base_endpoint_id row) endpoint (ed_method data)
         \<or> (re_endpoint row = endpoint \<and> re_method row = ed_method data))"
    unfolding collides_with_other_def filter_empty_conv using mem uniq by auto
  then show ?thesis
    using get assms(2) by (simp add: relative_endpoint_update_def)
qed

theorem relative_endpoint_update_collision_witness:
  "relative_endpoint_update spec_env
     \<lparr>ed_id = 2, ed_endpoint = ''articles/{slug}'', ed_method = ''POST''\<rparr> ex_db =
     (ex_db\<lparr>RelativeEndpoint_objects :=
              [\<lparr>re_id = 1, re_base_endpoint_id = 1, re_endpoint = ''/users/{id}'',
                re_method = ''GET'', re_regex_endpoint = ''^/users/([^/]+)$'',
                re_meta_data = ''{}''\<rparr>,
               \<lparr>re_id = 2, re_base_endpoint_id = 1, re_endpoint = ''/articles/{slug}'',
                re_method = ''POST'', re_regex_endpoint = ''^/articles/([^/]+)$'',
                re_meta_data = ''{}''\<rparr>]\<rparr>, Inr ())"
  using relative_endpoint_update_collision
    [of "\<lparr>ed_id = 2, ed_endpoint = ''articles/{slug}'', ed_method = ''POST''\<rparr>" ex_db
        "\<lparr>re_id = 2, re_base_endpoint_id = 1, re_endpoint = ''/posts'',
          re_method = ''GET'', re_regex_endpoint = ''^/posts$'', re_meta_data = ''{}''\<rparr>"
        spec_env "''/articles/{slug}''" "''^/articles/([^/]+)$''"]
  by (simp add: ex_db_def spec_env_def spec_format_and_regex_endpoint_def
      collides_with_other_def)

text \<open>
  The claim as the specification words it fails: an update that leaves the path and the
  method of row 2 as they are is rejected, although no other row carries that triple.
\<close>

theorem relative_endpoint_update_counterexample:
  "relative_endpoint_update spec_env
     \<lparr>ed_id = 2, ed_endpoint = ''posts'', ed_method = ''GET''\<rparr> ex_db =
     (ex_db, Inl (NotAllowed ''Endpoint with same url exists''))
   \<and> \<not> collides_with_other ex_db 2 1 ''/posts'' ''GET''"
  by (simp add: relative_endpoint_update_def objects_get_def ex_db_def spec_env_def
      spec_format_and_regex_endpoint_def collides_with_other_def)

section \<open>The invariant of reachable states\<close>

lemma ids_ok_Nil: "ids_ok [] n"
  by (simp add: ids_ok_def)

lemma ids_ok_fresh: "ids_ok ids n \<Longrightarrow> ids_ok (ids @ [n + 1]) (n + 1)"
  by (force simp: ids_ok_def list_all_iff)

lemma ids_ok_filter: "ids_ok (map f xs) n \<Longrightarrow> ids_ok (map f (filter p xs)) n"
  by (auto simp: ids_ok_def list_all_iff distinct_map_filter)

lemma ids_ok_save_fields:
  "ids_ok ids n \<Longrightarrow> ids_ok (ids @ map f_id (save_fields n objs)) (n + int (length objs))"
proof (induction objs arbitrary: ids n)
  case Nil
  then show ?case by simp
next
  case (Cons x xs)
  from Cons.IH [OF ids_ok_fresh [OF Cons.prems]] show ?case
    by (simp add: algebra_simps)
qed

lemma ids_ok_save_schema_datas:
  "ids_ok ids n \<Longrightarrow>
     ids_ok (ids @ map sd_id (save_schema_datas n objs)) (n + int (length objs))"
proof (induction objs arbitrary: ids n)
  case Nil
  then show ?case by simp
next
  case (Cons x xs)
  from Cons.IH [OF ids_ok_fresh [OF Cons.prems]] show ?case
    by (simp add: algebra_simps)
qed

lemma fold_max_ge: "n \<le> fold max ids (n :: int)"
  by (induction ids arbitrary: n) (auto intro: order_trans [OF max.cobounded2])

lemma fold_max_mem: "i \<in> set ids \<Longrightarrow> i \<le> fold max ids (n :: int)"
proof (induction ids arbitrary: n)
  case Nil
  then show ?case by simp
next
  case (Cons j js)
  show ?case
  proof (cases "i = j")
    case True
    have "j \<le> max j n" by simp
    also have "\<dots> \<le> fold max js (max j n)" by (rule fold_max_ge)
    finally show ?thesis using True by simp
  next
    case False
    with Cons show ?thesis by simp
  qed
qed

lemma ids_ok_bump_seq: "distinct ids \<Longrightarrow> ids_ok ids (bump_seq n ids)"
  by (simp add: ids_ok_def bump_seq_def list_all_iff fold_max_mem)

lemma bump_seq_same: "list_all (\<lambda>i. i \<le> n) ids \<Longrightarrow> bump_seq n ids = n"
  unfolding bump_seq_def by (induction ids arbitrary: n) (auto simp: max_def)

lemma update_fields_ids:
  "update_fields es rows = (rows', res) \<Longrightarrow>
     map f_id rows' = map f_id rows
     \<and> map f_relative_endpoint_id rows' = map f_relative_endpoint_id rows"
proof (induction es arbitrary: rows)
  case Nil
  then show ?case by auto
next
  case (Cons e es)
  show ?case
  proof (cases "fe_id e")
    case None
    with Cons.prems show ?thesis by auto
  next
    case (Some i)
    with Cons.prems have "update_fields es (map (update_field i e) rows) = (rows', res)"
      by simp
    from Cons.IH [OF this] show ?thesis
      by (simp add: comp_def update_field_def if_distrib cong: if_cong)
  qed
qed

lemma wf_db_empty: "wf_db empty_db"
  by (simp add: wf_db_def empty_db_def ids_ok_Nil)

lemma wf_db_base_endpoint_add: "wf_db db \<Longrightarrow> wf_db (fst (base_endpoint_add e db))"
  by (auto simp: base_endpoint_add_def BaseEndpoint_get_or_create_def wf_db_def Let_def
      ids_ok_fresh split: list.splits)

lemma wf_db_relative_endpoint_add:
  "wf_db db \<Longrightarrow> wf_db (fst (relative_endpoint_add env ed db))"
  by (auto simp: relative_endpoint_add_def wf_db_def Let_def ids_ok_fresh list_all_iff
      split: sum.splits)

lemma wf_db_schema_add: "wf_db db \<Longrightarrow> wf_db (fst (schema_add env sa db))"
  by (auto simp: schema_add_def Schema_create_def SchemaData_bulk_create_def wf_db_def Let_def
      ids_ok_fresh ids_ok_save_schema_datas split: sum.splits)

lemma wf_db_same_endpoint_ids:
  assumes "wf_db db" and "map re_id rows = map re_id (RelativeEndpoint_objects db)"
  shows "wf_db (db\<lparr>RelativeEndpoint_objects := rows\<rparr>)"
  using assms by (simp add: wf_db_def)

lemma wf_db_same_field_ids:
  assumes "wf_db db" and "map f_id rows = map f_id (Field_objects db)"
      and "map f_relative_endpoint_id rows = map f_relative_endpoint_id (Field_objects db)"
  shows "wf_db (db\<lparr>Field_objects := rows\<rparr>)"
proof -
  have "f_relative_endpoint_id ` set rows = f_relative_endpoint_id ` set (Field_objects db)"
    using assms(3) by (metis set_map)
  then have "list_all (\<lambda>f. f_relative_endpoint_id f \<in> S) rows =
             list_all (\<lambda>f. f_relative_endpoint_id f \<in> S) (Field_objects db)" for S
    by (simp add: list_all_iff image_subset_iff [symmetric])
  with assms(1,2) show ?thesis by (simp add: wf_db_def)
qed

lemma map_re_id_update:
  "map re_id (map (\<lambda>r. if re_id r = i
                         then r\<lparr>re_endpoint := a, re_method := b, re_regex_endpoint := c\<rparr>
                         else r) rows) = map re_id rows"
  by (induction rows) auto

lemma wf_db_relative_endpoint_update:
  assumes "wf_db db"
  shows "wf_db (fst (relative_endpoint_update env ed db))"
proof -
  have "wf_db (db\<lparr>RelativeEndpoint_objects :=
                  map (\<lambda>r. if re_id r = i
                            then r\<lparr>re_endpoint := a, re_method := b, re_regex_endpoint := c\<rparr>
                            else r) (RelativeEndpoint_objects db)\<rparr>)" for i a b c
    using assms map_re_id_update by (rule wf_db_same_endpoint_ids)
  with assms show ?thesis
    by (simp add: relative_endpoint_update_def split: sum.splits prod.splits)
qed

lemma wf_db_relative_endpoint_delete: "wf_db db \<Longrightarrow> wf_db (relative_endpoint_delete rid db)"
  by (auto simp: relative_endpoint_delete_def wf_db_def ids_ok_filter list_all_iff)

lemma wf_db_delete_fields_excluding:
  "wf_db db \<Longrightarrow> wf_db (delete_fields_excluding rid ids db)"
  by (auto simp: delete_fields_excluding_def wf_db_def ids_ok_filter list_all_iff)

lemma wf_db_Field_bulk_create:
  assumes "wf_db db" and "rid \<in> set (map re_id (RelativeEndpoint_objects db))"
  shows "wf_db (Field_bulk_create (map (new_field rid) fs) db)"
proof -
  have "f_relative_endpoint_id r = rid"
    if "r \<in> set (save_fields (f_seq db) (map (new_field rid) fs))" for r
    using that by (rule save_fields_endpoint)
  with assms show ?thesis
    using ids_ok_save_fields [of "map f_id (Field_objects db)" "f_seq db" "map (new_field rid) fs"]
    by (auto simp: Field_bulk_create_def wf_db_def list_all_iff)
qed

lemma wf_db_RelativeEndpoint_save:
  assumes "wf_db db" and "re_id obj \<in> set (map re_id (RelativeEndpoint_objects db))"
  shows "wf_db (RelativeEndpoint_save obj db)"
proof -
  have "map re_id (map (\<lambda>r. if re_id r = re_id obj then obj else r) rows) = map re_id rows"
    for rows
    by (induction rows) auto
  with assms(1) have "wf_db (db\<lparr>RelativeEndpoint_objects :=
        map (\<lambda>r. if re_id r = re_id obj then obj else r) (RelativeEndpoint_objects db)\<rparr>)"
    by (rule wf_db_same_endpoint_ids)
  with assms(2) show ?thesis by (simp add: RelativeEndpoint_save_def)
qed

lemma wf_db_endpoint_schema_update:
  assumes "wf_db db"
  shows "wf_db (fst (endpoint_schema_update env data db))"
proof (cases "objects_get (\<lambda>r. re_id r = su_id data) (RelativeEndpoint_objects db)")
  case (Inl e)
  with assms show ?thesis by (simp add: endpoint_schema_update_def)
next
  case (Inr endpoint)
  then have "filter (\<lambda>r. re_id r = su_id data) (RelativeEndpoint_objects db) = [endpoint]"
    by (simp add: objects_get_Inr)
  from filter_single_mem [OF this]
  have mem: "endpoint \<in> set (RelativeEndpoint_objects db)" and eid: "re_id endpoint = su_id data"
    by simp_all
  let ?db1 = "delete_fields_excluding (su_id data) (kept_ids (su_fields data)) db"
  have wf1: "wf_db ?db1" using assms by (rule wf_db_delete_fields_excluding)
  have re1: "RelativeEndpoint_objects ?db1 = RelativeEndpoint_objects db"
    by (simp add: delete_fields_excluding_def)
  show ?thesis
  proof (cases "select_fields env (map s_name (Schema_objects ?db1))
                  (url_params env (re_endpoint endpoint)) (su_fields data) [] []")
    case (Inl e)
    with Inr eid wf1 show ?thesis by (simp add: endpoint_schema_update_def Let_def)
  next
    case sel: (Inr ab)
    obtain a b where ab: "ab = (a, b)" by (cases ab)
    obtain rows res where upd: "update_fields a (Field_objects ?db1) = (rows, res)"
      by (cases "update_fields a (Field_objects ?db1)")
    from update_fields_ids [OF upd] wf1
    have wf2: "wf_db (?db1\<lparr>Field_objects := rows\<rparr>)"
      by (intro wf_db_same_field_ids) simp_all
    show ?thesis
    proof (cases res)
      case (Inl e)
      with \<open>objects_get _ _ = Inr endpoint\<close> eid sel ab upd wf2 show ?thesis
        by (simp add: endpoint_schema_update_def Let_def)
    next
      case res: (Inr u)
      have sid: "su_id data \<in> set (map re_id (RelativeEndpoint_objects (?db1\<lparr>Field_objects := rows\<rparr>)))"
        using mem eid re1 by force
      let ?db2 = "Field_bulk_create (map (new_field (su_id data)) b) (?db1\<lparr>Field_objects := rows\<rparr>)"
      from wf2 sid have wf3: "wf_db ?db2" by (rule wf_db_Field_bulk_create)
      have "re_id (endpoint\<lparr>re_meta_data := su_meta_data data\<rparr>)
              \<in> set (map re_id (RelativeEndpoint_objects ?db2))"
        using mem eid re1 by (force simp: Field_bulk_create_def)
      with wf3 have "wf_db (RelativeEndpoint_save (endpoint\<lparr>re_meta_data := su_meta_data data\<rparr>) ?db2)"
        by (rule wf_db_RelativeEndpoint_save)
      with \<open>objects_get _ _ = Inr endpoint\<close> eid sel ab upd res show ?thesis
        by (simp add: endpoint_schema_update_def Let_def)
    qed
  qed
qed

lemma import_fields_endpoint:
  "f \<in> set (concat (map import_fields xs)) \<Longrightarrow>
     f_relative_endpoint_id f \<in> set (map re_id (map (import_relative_endpoint env) xs))"
  by (auto simp: import_fields_def import_relative_endpoint_def)

lemma wf_db_data_import:
  assumes "wf_db db"
  shows "wf_db (fst (data_import env data db))"
proof -
  have fk: "list_all (\<lambda>f. f_relative_endpoint_id f
                \<in> set (map re_id (map (import_relative_endpoint env) xs)))
              (concat (map import_fields xs))" for xs
    unfolding list_all_iff using import_fields_endpoint [of _ xs env] by blast
  from assms fk show ?thesis
    unfolding data_import_def pk_insert_def Let_def wf_db_def
    by (simp add: ids_ok_Nil ids_ok_bump_seq image_image)
qed

lemma reachable_wf_db: "reachable env db \<Longrightarrow> wf_db db"
proof (induction rule: reachable.induct)
  case initial
  show ?case by (rule wf_db_empty)
next
  case (after_base_endpoint_add db endpoint)
  then show ?case by (simp add: wf_db_base_endpoint_add)
next
  case (after_relative_endpoint_add db ed)
  then show ?case by (simp add: wf_db_relative_endpoint_add)
next
  case (after_schema_add db sa)
  then show ?case by (simp add: wf_db_schema_add)
next
  case (after_endpoint_schema_update db su)
  then show ?case by (simp add: wf_db_endpoint_schema_update)
next
  case (after_relative_endpoint_update db ed)
  then show ?case by (simp add: wf_db_relative_endpoint_update)
next
  case (after_relative_endpoint_delete db rid)
  then show ?case by (simp add: wf_db_relative_endpoint_delete)
next
  case (after_data_import db snap)
  then show ?case by (simp add: wf_db_data_import)
qed

section \<open>data_export and data_import\<close>

lemma details_all:
  "\<forall>x\<in>set xs. f x = Inr (g x) \<Longrightarrow> details f xs = Inr (map g xs)"
  by (induction xs) auto

lemma mset_filter_disjoint:
  "\<forall>x\<in>set xs. \<not> (P x \<and> Q x) \<Longrightarrow>
     mset (filter P xs) + mset (filter Q xs) = mset (filter (\<lambda>x. P x \<or> Q x) xs)"
  by (induction xs) auto

text \<open>Grouping rows by their owner, for owners with distinct ids, keeps each row once.\<close>

lemma mset_grouped:
  "distinct (map k rows) \<Longrightarrow>
     mset (concat (map (\<lambda>r. filter (\<lambda>f. fk f = k r) fs) rows)) =
     mset (filter (\<lambda>f. fk f \<in> set (map k rows)) fs)"
proof (induction rows)
  case Nil
  then show ?case by simp
next
  case (Cons r rows)
  then have new: "k r \<notin> set (map k rows)" and d: "distinct (map k rows)" by simp_all
  have "mset (filter (\<lambda>f. fk f = k r) fs) + mset (filter (\<lambda>f. fk f \<in> set (map k rows)) fs) =
        mset (filter (\<lambda>f. fk f = k r \<or> fk f \<in> set (map k rows)) fs)"
    using new by (intro mset_filter_disjoint) auto
  with Cons.IH [OF d] show ?case by simp
qed

lemma import_fields_detail:
  "import_fields
     \<lparr>rd_id = i, rd_base_endpoint = b, rd_endpoint = e, rd_method = m, rd_regex_endpoint = x,
      rd_meta_data = j, rd_fields = map Field_detail (filter (\<lambda>f. f_relative_endpoint_id f = i) fs),
      rd_url_params = ps\<rparr> = filter (\<lambda>f. f_relative_endpoint_id f = i) fs"
  by (induction fs) (auto simp: import_fields_def Field_detail_def)

lemma details_Inr_each: "details f xs = Inr ys \<Longrightarrow> \<forall>x\<in>set xs. \<exists>y. f x = Inr y"
  by (induction xs arbitrary: ys) (auto split: sum.splits)

lemma reserialise_columns:
  "re_id (reserialise env r) = re_id r"
  "re_base_endpoint_id (reserialise env r) = re_base_endpoint_id r"
  "re_endpoint (reserialise env r) = re_endpoint r"
  "re_method (reserialise env r) = re_method r"
  "re_regex_endpoint (reserialise env r) = re_regex_endpoint r"
  by (simp_all add: reserialise_def split: option.splits)

text \<open>The rows of one owner are found in the grouped list as they are in the table.\<close>

lemma filter_grouped_none:
  "k0 \<notin> set (map k rows) \<Longrightarrow>
     filter (\<lambda>f. fk f = k0) (concat (map (\<lambda>r. filter (\<lambda>f. fk f = k r) fs) rows)) = []"
  by (induction rows) (auto simp: filter_empty_conv)

lemma filter_grouped:
  "distinct (map k rows) \<Longrightarrow> k0 \<in> set (map k rows) \<Longrightarrow>
     filter (\<lambda>f. fk f = k0) (concat (map (\<lambda>r. filter (\<lambda>f. fk f = k r) fs) rows)) =
     filter (\<lambda>f. fk f = k0) fs"
proof (induction rows)
  case Nil
  then show ?case by simp
next
  case (Cons r rows)
  show ?case
  proof (cases "k r = k0")
    case True
    with Cons.prems have "k0 \<notin> set (map k rows)" by auto
    from filter_grouped_none [OF this, of fk fs] True show ?thesis
      by (simp cong: conj_cong)
  next
    case False
    with Cons.prems have "distinct (map k rows)" "k0 \<in> set (map k rows)" by auto
    from Cons.IH [OF this] False show ?thesis
      by (auto simp: filter_empty_conv)
  qed
qed

text \<open>
  What \<open>data_export\<close> returns when it returns: every stored \<open>meta_data\<close> has parsed, and
  the snapshot holds the five tables.
\<close>

lemma data_export_Inr:
  assumes "data_export env db = Inr snap"
  shows "(\<forall>r\<in>set (RelativeEndpoint_objects db). json_loads env (re_meta_data r) \<noteq> None)
       \<and> snap =
           \<lparr>snap_base_endpoints = BaseEndpoint_objects db,
            snap_relative_endpoints =
              map (\<lambda>r. \<lparr>rd_id = re_id r, rd_base_endpoint = re_base_endpoint_id r,
                         rd_endpoint = re_endpoint r, rd_method = re_method r,
                         rd_regex_endpoint = re_regex_endpoint r,
                         rd_meta_data = the (json_loads env (re_meta_data r)),
                         rd_fields = map Field_detail
                           (filter (\<lambda>f. f_relative_endpoint_id f = re_id r) (Field_objects db)),
                         rd_url_params = url_params env (re_endpoint r)\<rparr>)
                (RelativeEndpoint_objects db),
            snap_schema = map (Schema_detail db) (Schema_objects db),
            snap_fields = map Field_detail (Field_objects db),
            snap_schema_data = map SchemaData_detail (SchemaData_objects db)\<rparr>"
proof -
  let ?g = "\<lambda>r. \<lparr>rd_id = re_id r, rd_base_endpoint = re_base_endpoint_id r,
                  rd_endpoint = re_endpoint r, rd_method = re_method r,
                  rd_regex_endpoint = re_regex_endpoint r,
                  rd_meta_data = the (json_loads env (re_meta_data r)),
                  rd_fields = map Field_detail
                    (filter (\<lambda>f. f_relative_endpoint_id f = re_id r) (Field_objects db)),
                  rd_url_params = url_params env (re_endpoint r)\<rparr>"
  from assms obtain rds
    where rds: "details (RelativeEndpoint_detail env db) (RelativeEndpoint_objects db) = Inr rds"
    by (auto simp: data_export_def split: sum.splits)
  from details_Inr_each [OF rds]
  have parses: "\<forall>r\<in>set (RelativeEndpoint_objects db). json_loads env (re_meta_data r) \<noteq> None"
    by (auto simp: RelativeEndpoint_detail_def split: option.splits)
  then have "\<forall>r\<in>set (RelativeEndpoint_objects db). RelativeEndpoint_detail env db r = Inr (?g r)"
    by (auto simp: RelativeEndpoint_detail_def)
  then have "details (RelativeEndpoint_detail env db) (RelativeEndpoint_objects db) =
               Inr (map ?g (RelativeEndpoint_objects db))"
    by (rule details_all)
  with assms parses show ?thesis by (auto simp: data_export_def)
qed

text \<open>The import of the export of a well-formed database.\<close>

lemma import_of_export:
  assumes wf: "wf_db db" and export: "data_export env db = Inr snap"
  shows "data_import env snap db = (regrouped env db, Inr ())"
proof -
  let ?g = "\<lambda>r. \<lparr>rd_id = re_id r, rd_base_endpoint = re_base_endpoint_id r,
                  rd_endpoint = re_endpoint r, rd_method = re_method r,
                  rd_regex_endpoint = re_regex_endpoint r,
                  rd_meta_data = the (json_loads env (re_meta_data r)),
                  rd_fields = map Field_detail
                    (filter (\<lambda>f. f_relative_endpoint_id f = re_id r) (Field_objects db)),
                  rd_url_params = url_params env (re_endpoint r)\<rparr>"
  let ?grouped = "concat (map (\<lambda>r. filter (\<lambda>f. f_relative_endpoint_id f = re_id r)
                                   (Field_objects db)) (RelativeEndpoint_objects db))"
  from data_export_Inr [OF export]
  have parses: "\<forall>r\<in>set (RelativeEndpoint_objects db). json_loads env (re_meta_data r) \<noteq> None"
    and snap: "snap =
           \<lparr>snap_base_endpoints = BaseEndpoint_objects db,
            snap_relative_endpoints = map ?g (RelativeEndpoint_objects db),
            snap_schema = map (Schema_detail db) (Schema_objects db),
            snap_fields = map Field_detail (Field_objects db),
            snap_schema_data = map SchemaData_detail (SchemaData_objects db)\<rparr>"
    by simp_all
  have res: "map (import_relative_endpoint env) (map ?g (RelativeEndpoint_objects db)) =
             map (reserialise env) (RelativeEndpoint_objects db)"
    using parses by (auto simp: import_relative_endpoint_def reserialise_def)
  have rids: "re_id \<circ> reserialise env = re_id"
    by (simp add: fun_eq_iff reserialise_columns)
  have fs: "concat (map import_fields (map ?g (RelativeEndpoint_objects db))) = ?grouped"
    by (simp add: comp_def import_fields_detail)
  have ss: "map import_schema (map (Schema_detail db) (Schema_objects db)) = Schema_objects db"
    by (simp add: comp_def import_schema_def Schema_detail_def map_idI)
  have ds: "map import_schema_data (map SchemaData_detail (SchemaData_objects db)) =
            SchemaData_objects db"
    by (simp add: comp_def import_schema_data_def SchemaData_detail_def map_idI)
  from wf have fk: "filter (\<lambda>f. f_relative_endpoint_id f \<in> set (map re_id (RelativeEndpoint_objects db)))
                      (Field_objects db) = Field_objects db"
    by (simp add: wf_db_def list_all_iff)
  from wf have "distinct (map re_id (RelativeEndpoint_objects db))"
    by (simp add: wf_db_def ids_ok_def)
  then have "mset ?grouped =
      mset (filter (\<lambda>f. f_relative_endpoint_id f \<in> set (map re_id (RelativeEndpoint_objects db)))
              (Field_objects db))"
    by (rule mset_grouped)
  then have perm: "mset ?grouped = mset (Field_objects db)" by (simp only: fk)
  then have "mset (map f_id ?grouped) = mset (map f_id (Field_objects db))"
    by (metis mset_map)
  then have dist: "distinct (map f_id ?grouped) = distinct (map f_id (Field_objects db))"
    and sets: "set (map f_id ?grouped) = set (map f_id (Field_objects db))"
    by (rule mset_eq_imp_distinct_iff, rule mset_eq_setD)
  from wf sets have bound: "list_all (\<lambda>i. i \<le> f_seq db) (map f_id ?grouped)"
    unfolding wf_db_def ids_ok_def list_all_iff by blast
  from wf dist have fdist: "distinct (map f_id ?grouped)"
    by (simp add: wf_db_def ids_ok_def)
  show ?thesis
    using wf
    unfolding data_import_def pk_insert_def Let_def snap snapshot.simps res fs ss ds regrouped_def
    by (simp add: wf_db_def ids_ok_def bump_seq_same bound fdist rids)
qed

lemma mset_regrouped:
  assumes "wf_db db"
  shows "mset (Field_objects (regrouped env db)) = mset (Field_objects db)"
proof -
  from assms have fk: "filter (\<lambda>f. f_relative_endpoint_id f \<in> set (map re_id (RelativeEndpoint_objects db)))
                      (Field_objects db) = Field_objects db"
    by (simp add: wf_db_def list_all_iff)
  from assms have "distinct (map re_id (RelativeEndpoint_objects db))"
    by (simp add: wf_db_def ids_ok_def)
  then have "mset (concat (map (\<lambda>r. filter (\<lambda>f. f_relative_endpoint_id f = re_id r)
                                   (Field_objects db)) (RelativeEndpoint_objects db))) =
      mset (filter (\<lambda>f. f_relative_endpoint_id f \<in> set (map re_id (RelativeEndpoint_objects db)))
              (Field_objects db))"
    by (rule mset_grouped)
  then have "mset (concat (map (\<lambda>r. filter (\<lambda>f. f_relative_endpoint_id f = re_id r)
                                   (Field_objects db)) (RelativeEndpoint_objects db))) =
             mset (Field_objects db)"
    by (simp only: fk)
  then show ?thesis by (simp add: regrouped_def)
qed

lemma details_map:
  "\<forall>x\<in>set xs. f (h x) = Inr (g x) \<Longrightarrow> details f (map h xs) = Inr (map g xs)"
  by (induction xs) auto

text \<open>
  The export of the restored database: the snapshot it was restored from, with the flat
  list of fields in the new order of the rows.
\<close>

lemma export_of_regrouped:
  assumes wf: "wf_db db" and export: "data_export env db = Inr snap"
      and rb: "meta_data_reads_back env db"
  shows "data_export env (regrouped env db) =
           Inr (snap\<lparr>snap_fields := map Field_detail (Field_objects (regrouped env db))\<rparr>)"
proof -
  let ?g = "\<lambda>r. \<lparr>rd_id = re_id r, rd_base_endpoint = re_base_endpoint_id r,
                  rd_endpoint = re_endpoint r, rd_method = re_method r,
                  rd_regex_endpoint = re_regex_endpoint r,
                  rd_meta_data = the (json_loads env (re_meta_data r)),
                  rd_fields = map Field_detail
                    (filter (\<lambda>f. f_relative_endpoint_id f = re_id r) (Field_objects db)),
                  rd_url_params = url_params env (re_endpoint r)\<rparr>"
  from data_export_Inr [OF export]
  have parses: "\<forall>r\<in>set (RelativeEndpoint_objects db). json_loads env (re_meta_data r) \<noteq> None"
    and snap: "snap =
           \<lparr>snap_base_endpoints = BaseEndpoint_objects db,
            snap_relative_endpoints = map ?g (RelativeEndpoint_objects db),
            snap_schema = map (Schema_detail db) (Schema_objects db),
            snap_fields = map Field_detail (Field_objects db),
            snap_schema_data = map SchemaData_detail (SchemaData_objects db)\<rparr>"
    by simp_all
  from wf have dist: "distinct (map re_id (RelativeEndpoint_objects db))"
    by (simp add: wf_db_def ids_ok_def)
  have each: "RelativeEndpoint_detail env (regrouped env db) (reserialise env r) = Inr (?g r)"
    if r: "r \<in> set (RelativeEndpoint_objects db)" for r
  proof -
    from parses r obtain j where j: "json_loads env (re_meta_data r) = Some j" by auto
    with rb r have readback: "json_loads env (json_dumps env j) = Some j"
      by (auto simp: meta_data_reads_back_def list_all_iff)
    from r have "re_id r \<in> set (map re_id (RelativeEndpoint_objects db))" by simp
    from filter_grouped [OF dist this, of f_relative_endpoint_id "Field_objects db"]
    have "filter (\<lambda>f. f_relative_endpoint_id f = re_id r) (Field_objects (regrouped env db)) =
          filter (\<lambda>f. f_relative_endpoint_id f = re_id r) (Field_objects db)"
      by (simp add: regrouped_def)
    with j readback show ?thesis
      by (simp add: RelativeEndpoint_detail_def reserialise_def)
  qed
  then have "details (RelativeEndpoint_detail env (regrouped env db))
               (map (reserialise env) (RelativeEndpoint_objects db)) =
             Inr (map ?g (RelativeEndpoint_objects db))"
    by (intro details_map) simp
  then show ?thesis
    by (simp add: data_export_def snap regrouped_def Schema_detail_def)
qed

text \<open>
  Claim C7. For every reachable state, \<open>data_import\<close> of the snapshot that \<open>data_export\<close>
  returns succeeds and restores all five tables with the ids of the snapshot: base
  endpoints, schemas and schema data as the same lists, fields as the same rows (grouped
  by endpoint, so possibly in another order), relative endpoints as the same rows with
  \<open>meta_data\<close> parsed and serialised again. When the parser reads the parsed \<open>meta_data\<close>
  back from its serialisation, the restored state exports the very snapshot it was
  restored from, the flat list of fields following the new order of the rows.
\<close>

theorem export_import_round_trip:
  assumes "reachable env db" and "data_export env db = Inr snap"
  shows "\<exists>db'. data_import env snap db = (db', Inr ())
           \<and> BaseEndpoint_objects db' = BaseEndpoint_objects db
           \<and> RelativeEndpoint_objects db' = map (reserialise env) (RelativeEndpoint_objects db)
           \<and> mset (Field_objects db') = mset (Field_objects db)
           \<and> Schema_objects db' = Schema_objects db
           \<and> SchemaData_objects db' = SchemaData_objects db
           \<and> (meta_data_reads_back env db \<longrightarrow>
                data_export env db' =
                  Inr (snap\<lparr>snap_fields := map Field_detail (Field_objects db')\<rparr>))"
proof -
  from assms(1) have wf: "wf_db db" by (rule reachable_wf_db)
  show ?thesis
  proof (intro exI conjI impI)
    show "data_import env snap db = (regrouped env db, Inr ())"
      using wf assms(2) by (rule import_of_export)
    show "mset (Field_objects (regrouped env db)) = mset (Field_objects db)"
      using wf by (rule mset_regrouped)
    show "data_export env (regrouped env db) =
            Inr (snap\<lparr>snap_fields := map Field_detail (Field_objects (regrouped env db))\<rparr>)"
      if "meta_data_reads_back env db"
      using wf assms(2) that by (rule export_of_regrouped)
  qed (simp_all add: regrouped_def)
qed

text \<open>The example databases are what the services build from the empty one.\<close>

lemma ex_db_built:
  "ex_db =
     fst (endpoint_schema_update spec_env ex_update3
       (fst (endpoint_schema_update spec_env ex_update2
         (fst (endpoint_schema_update spec_env ex_update1
           (fst (schema_add spec_env ex_schema
             (fst (relative_endpoint_add spec_env ex_posts
               (fst (relative_endpoint_add spec_env ex_users
                 (fst (base_endpoint_add ''/api'' empty_db)))))))))))))"
  by (simp add: ex_db_def ex_update1_def ex_update2_def ex_update3_def ex_schema_def ex_posts_def
      ex_users_def empty_db_def spec_env_def base_endpoint_add_def BaseEndpoint_get_or_create_def
      relative_endpoint_add_def spec_format_and_regex_endpoint_def schema_add_def
      Schema_create_def SchemaData_bulk_create_def Schema_detail_def endpoint_schema_update_def
      objects_get_def delete_fields_excluding_def kept_ids_def validate_field_def
      spec_url_params_def Field_bulk_create_def new_field_def RelativeEndpoint_save_def Let_def)

lemma ex_db_reachable: "reachable spec_env ex_db"
  unfolding ex_db_built by (intro reachable.intros)

lemma ex_db'_reachable: "reachable spec_env ex_db'"
proof -
  have built: "ex_db' = fst (endpoint_schema_update spec_env ex_update4 ex_db)"
    by (simp add: ex_db'_def ex_db_def ex_update4_def spec_env_def endpoint_schema_update_def
        objects_get_def delete_fields_excluding_def kept_ids_def Field_bulk_create_def
        RelativeEndpoint_save_def Let_def)
  show ?thesis
    unfolding built using ex_db_reachable by (rule reachable.after_endpoint_schema_update)
qed

theorem export_import_round_trip_witness:
  "data_export spec_env ex_db' = Inr ex_snapshot
   \<and> data_import spec_env ex_snapshot ex_db' =
       (ex_db\<lparr>Field_objects :=
               [\<lparr>f_id = 1, f_relative_endpoint_id = 1, f_key = ''name'', f_type = ''VALUE'',
                 f_value = ''string'', f_is_array = False\<rparr>,
                \<lparr>f_id = 3, f_relative_endpoint_id = 1, f_key = ''uid'', f_type = ''URL_PARAM'',
                 f_value = ''id'', f_is_array = False\<rparr>,
                \<lparr>f_id = 2, f_relative_endpoint_id = 2, f_key = ''title'', f_type = ''VALUE'',
                 f_value = ''string'', f_is_array = False\<rparr>]\<rparr>, Inr ())
   \<and> mset (Field_objects (fst (data_import spec_env ex_snapshot ex_db'))) =
       mset (Field_objects ex_db')
   \<and> data_export spec_env (fst (data_import spec_env ex_snapshot ex_db')) =
       Inr (ex_snapshot\<lparr>snap_fields :=
              [\<lparr>fd_id = 1, fd_key = ''name'', fd_type = ''VALUE'', fd_value = ''string'',
                fd_is_array = False\<rparr>,
               \<lparr>fd_id = 3, fd_key = ''uid'', fd_type = ''URL_PARAM'', fd_value = ''id'',
                fd_is_array = False\<rparr>,
               \<lparr>fd_id = 2, fd_key = ''title'', fd_type = ''VALUE'', fd_value = ''string'',
                fd_is_array = False\<rparr>]\<rparr>)"
proof -
  have export: "data_export spec_env ex_db' = Inr ex_snapshot"
    by (simp add: data_export_def RelativeEndpoint_detail_def Field_detail_def Schema_detail_def
        SchemaData_detail_def ex_db'_def ex_db_def ex_snapshot_def spec_env_def
        spec_url_params_def)
  have import: "data_import spec_env ex_snapshot ex_db' =
       (ex_db\<lparr>Field_objects :=
               [\<lparr>f_id = 1, f_relative_endpoint_id = 1, f_key = ''name'', f_type = ''VALUE'',
                 f_value = ''string'', f_is_array = False\<rparr>,
                \<lparr>f_id = 3, f_relative_endpoint_id = 1, f_key = ''uid'', f_type = ''URL_PARAM'',
                 f_value = ''id'', f_is_array = False\<rparr>,
                \<lparr>f_id = 2, f_relative_endpoint_id = 2, f_key = ''title'', f_type = ''VALUE'',
                 f_value = ''string'', f_is_array = False\<rparr>]\<rparr>, Inr ())"
    by (simp add: data_import_def pk_insert_def bump_seq_def import_fields_def
        import_relative_endpoint_def import_schema_def import_schema_data_def
        ex_db'_def ex_db_def ex_snapshot_def spec_env_def Let_def)
  have rb: "meta_data_reads_back spec_env ex_db'"
    by (simp add: meta_data_reads_back_def ex_db'_def spec_env_def)
  from export_import_round_trip [OF ex_db'_reachable export] rb
  have "mset (Field_objects (fst (data_import spec_env ex_snapshot ex_db'))) =
          mset (Field_objects ex_db')
        \<and> data_export spec_env (fst (data_import spec_env ex_snapshot ex_db')) =
            Inr (ex_snapshot\<lparr>snap_fields := map Field_detail
                   (Field_objects (fst (data_import spec_env ex_snapshot ex_db')))\<rparr>)"
    by auto
  with export import show ?thesis by (simp add: Field_detail_def)
qed

end
